theory Spec2Isabelle
  imports Main "HOL-Library.Word"
begin

section \<open>Values shared by both engines\<close>

text \<open>
  A Go byte slice is a list of 8-bit words.  An \<open>error\<close> is either the end-of-stream
  sentinel or a value made by \<open>errors.New\<close>; \<open>Error\<close> is its message.  The sticky slot
  of an engine holds \<open>error option\<close>, \<open>None\<close> being Go's \<open>nil\<close>.
\<close>

type_synonym byte = "8 word"
type_synonym bytes = "byte list"

datatype error = EOF | errorString string

fun Error :: "error \<Rightarrow> string" where
  "Error EOF = ''EOF''"
| "Error (errorString s) = s"

definition errors_New :: "string \<Rightarrow> error" where
  "errors_New text = errorString text"

text \<open>
  The payload that \<open>recover()\<close> hands to the deferred function of \<open>dispatch\<close>: an error
  value, a string, or a value of any other type.  The project builds with Go 1.22 and
  later, where \<open>panic(nil)\<close> arrives as a runtime error value, so that the payload of a
  panic is never nil.
\<close>

datatype panic_value = PanicError error | PanicString string | PanicOther

text \<open>What a call of \<open>OnData\<close> does: it returns an error (or nil), or it panics.\<close>

datatype outcome = Return "error option" | Panic panic_value

text \<open>Go's \<open>any\<close>, as far as the results of the observers need it.\<close>

datatype any = AnyNil | AnyInt int | AnyBytes bytes | AnyString string

text \<open>
  \<open>formatPanic\<close> of the read engine: the type switch tries \<open>error\<close> first, then \<open>string\<close>.
\<close>

fun formatPanic :: "panic_value \<Rightarrow> string" where
  "formatPanic (PanicError v) = Error v"
| "formatPanic (PanicString v) = v"
| "formatPanic PanicOther = ''unknown panic''"

section \<open>Streams and observers as objects\<close>

text \<open>
  An object is a record of its methods together with its current state; a method takes
  the state and returns its result and the next state.  A capability that the dynamic
  type of the stream may lack (\<open>io.ReaderAt\<close>, \<open>io.WriterAt\<close>, \<open>io.Closer\<close>) is an
  optional method.  The \<open>bufio\<close> layer that \<open>NewReader\<close> and \<open>NewWriter\<close> put around the
  stream belongs to the standard library: its \<open>Read\<close>, \<open>Write\<close> and \<open>Flush\<close> are taken
  as given methods of the stream object (\<open>buf_Read\<close>, \<open>buf_Write\<close>, \<open>buf_Flush\<close>), and
  the buffer is part of the object's state.  A read of \<open>n\<close> bytes into \<open>p\<close> is modelled
  by the length of \<open>p\<close> going in and the slice \<open>p[:n]\<close> coming out.
\<close>

record 'a io_Reader =
  buf_Read :: "nat \<Rightarrow> 'a \<Rightarrow> (bytes \<times> error option) \<times> 'a"
  ReaderAt :: "(nat \<Rightarrow> int \<Rightarrow> 'a \<Rightarrow> (bytes \<times> error option) \<times> 'a) option"
  r_state :: 'a

record 'a io_Writer =
  Write_m :: "bytes \<Rightarrow> 'a \<Rightarrow> (nat \<times> error option) \<times> 'a"
  buf_Write :: "bytes \<Rightarrow> 'a \<Rightarrow> (nat \<times> error option) \<times> 'a"
  buf_Flush :: "'a \<Rightarrow> error option \<times> 'a"
  WriterAt :: "(bytes \<Rightarrow> int \<Rightarrow> 'a \<Rightarrow> (nat \<times> error option) \<times> 'a) option"
  Closer :: "('a \<Rightarrow> error option \<times> 'a) option"
  w_state :: 'a

text \<open>
  \<open>teeWriterCallback\<close> (streamutil.go): the mirror sink and the pointer to the first
  write error.
\<close>

record 'w teeWriterCallback =
  tee_w :: "'w io_Writer"
  tee_errPtr :: "error option"

text \<open>
  Any other implementation of the three-method callback interface.  \<open>OnData\<close> gets the
  chunk as a value: the interface requires that an observer does not modify the chunk,
  and the model has no observer that does.  \<open>Name\<close> is a constant of the object.
\<close>

record 'c callback_impl =
  impl_Name :: string
  impl_OnData :: "bytes \<Rightarrow> 'c \<Rightarrow> outcome \<times> 'c"
  impl_Result :: "'c \<Rightarrow> any"
  impl_state :: 'c

text \<open>
  \<open>ReadCallback\<close> and \<open>WriteCallback\<close> are the same interface; a value of it is the tee
  mirror or some other implementation.
\<close>

datatype ('w, 'c) Callback = TeeWriter "'w teeWriterCallback" | Impl "'c callback_impl"

definition teeWriterCallback_OnData ::
  "'w teeWriterCallback \<Rightarrow> bytes \<Rightarrow> error option \<times> 'w teeWriterCallback" where
  "teeWriterCallback_OnData t chunk =
     (case tee_errPtr t of
        Some e \<Rightarrow> (Some e, t)
      | None \<Rightarrow>
          (case Write_m (tee_w t) chunk (w_state (tee_w t)) of
             ((n, err), s') \<Rightarrow>
               (case err of
                  Some e \<Rightarrow> (Some e, t\<lparr>tee_w := (tee_w t)\<lparr>w_state := s'\<rparr>, tee_errPtr := Some e\<rparr>)
                | None \<Rightarrow> (None, t\<lparr>tee_w := (tee_w t)\<lparr>w_state := s'\<rparr>\<rparr>))))"

fun Name :: "('w, 'c) Callback \<Rightarrow> string" where
  "Name (TeeWriter t) = ''_tee_writer''"
| "Name (Impl c) = impl_Name c"

fun OnData :: "('w, 'c) Callback \<Rightarrow> bytes \<Rightarrow> outcome \<times> ('w, 'c) Callback" where
  "OnData (TeeWriter t) chunk =
     (case teeWriterCallback_OnData t chunk of (err, t') \<Rightarrow> (Return err, TeeWriter t'))"
| "OnData (Impl c) chunk =
     (case impl_OnData c chunk (impl_state c) of (r, s') \<Rightarrow> (r, Impl (c\<lparr>impl_state := s'\<rparr>)))"

fun Result :: "('w, 'c) Callback \<Rightarrow> any" where
  "Result (TeeWriter t) = AnyNil"
| "Result (Impl c) = impl_Result c (impl_state c)"

section \<open>Dispatch\<close>

text \<open>
  Every call an engine makes on its stream or on an observer is appended to a trace, so
  that "no further I/O" and "invoked once, in order" can be stated.  The trace is not a
  field of the Go structs.  An observer is named in the trace by its position in the
  list of callbacks.
\<close>

datatype event =
    Ev_buf_Read nat
  | Ev_ReadAt nat int
  | Ev_buf_Write bytes
  | Ev_buf_Flush
  | Ev_WriteAt bytes int
  | Ev_Close
  | Ev_OnData nat bytes

text \<open>
  The loop of \<open>dispatch\<close>: \<open>for _, cb := range callbacks\<close>, leaving at the first error
  that is not nil, or by the panic of an observer.
\<close>

fun dispatch_loop ::
  "('w, 'c) Callback list \<Rightarrow> bytes \<Rightarrow> nat \<Rightarrow> event list
     \<Rightarrow> outcome \<times> ('w, 'c) Callback list \<times> event list" where
  "dispatch_loop [] chunk i tr = (Return None, [], tr)"
| "dispatch_loop (cb # cbs) chunk i tr =
     (case OnData cb chunk of
        (Return None, cb') \<Rightarrow>
          (case dispatch_loop cbs chunk (Suc i) (tr @ [Ev_OnData i chunk]) of
             (r, cbs', tr') \<Rightarrow> (r, cb' # cbs', tr'))
      | (Return (Some e), cb') \<Rightarrow> (Return (Some e), cb' # cbs, tr @ [Ev_OnData i chunk])
      | (Panic v, cb') \<Rightarrow> (Panic v, cb' # cbs, tr @ [Ev_OnData i chunk]))"

text \<open>
  The body of \<open>dispatch\<close> with its deferred \<open>recover\<close>: a panic becomes the error
  \<open>"callback panic: " + formatPanic(r)\<close>.  Both engines have the same text.
\<close>

definition dispatch ::
  "('w, 'c) Callback list \<Rightarrow> bytes \<Rightarrow> event list
     \<Rightarrow> error option \<times> ('w, 'c) Callback list \<times> event list" where
  "dispatch cbs chunk tr =
     (case dispatch_loop cbs chunk 0 tr of
        (Return err, cbs', tr') \<Rightarrow> (err, cbs', tr')
      | (Panic r, cbs', tr') \<Rightarrow>
          (Some (errors_New (''callback panic: '' @ formatPanic r)), cbs', tr'))"

section \<open>The buffered read engine\<close>

text \<open>
  \<open>br_srcAt\<close> is the positional method found by the type assertion in \<open>NewReader\<close>, \<open>None\<close>
  when the source is no \<open>io.ReaderAt\<close>.  \<open>br_src\<close> is the one source object that the Go
  fields \<open>src\<close> and \<open>buf\<close> both reach.
\<close>

record ('a, 'w, 'c) BufferedReader =
  br_src :: "'a io_Reader"
  br_srcAt :: "(nat \<Rightarrow> int \<Rightarrow> 'a \<Rightarrow> (bytes \<times> error option) \<times> 'a) option"
  br_callbacks :: "('w, 'c) Callback list"
  br_err :: "error option"
  br_trace :: "event list"

definition NewReader ::
  "'a io_Reader \<Rightarrow> ('w, 'c) Callback list \<Rightarrow> ('a, 'w, 'c) BufferedReader" where
  "NewReader r cbs =
     \<lparr>br_src = r, br_srcAt = ReaderAt r, br_callbacks = cbs, br_err = None, br_trace = []\<rparr>"

definition BufferedReader_dispatch ::
  "('a, 'w, 'c) BufferedReader \<Rightarrow> bytes \<Rightarrow> error option \<times> ('a, 'w, 'c) BufferedReader" where
  "BufferedReader_dispatch br chunk =
     (case dispatch (br_callbacks br) chunk (br_trace br) of
        (err, cbs', tr') \<Rightarrow> (err, br\<lparr>br_callbacks := cbs', br_trace := tr'\<rparr>))"

text \<open>
  The part that \<open>Read\<close> and \<open>ReadAt\<close> share after the transfer: \<open>p_n\<close> is \<open>p[:n]\<close>,
  \<open>err\<close> the error of the source.
\<close>

definition br_after_transfer ::
  "('a, 'w, 'c) BufferedReader \<Rightarrow> bytes \<Rightarrow> error option
     \<Rightarrow> (bytes \<times> error option) \<times> ('a, 'w, 'c) BufferedReader" where
  "br_after_transfer br p_n err =
     (if length p_n > 0 \<and> length (br_callbacks br) > 0 then
        (case BufferedReader_dispatch br p_n of
           (Some cbErr, br') \<Rightarrow> ((p_n, Some cbErr), br'\<lparr>br_err := Some cbErr\<rparr>)
         | (None, br') \<Rightarrow> ((p_n, err), br'))
      else ((p_n, err), br))"

definition Read ::
  "('a, 'w, 'c) BufferedReader \<Rightarrow> nat
     \<Rightarrow> (bytes \<times> error option) \<times> ('a, 'w, 'c) BufferedReader" where
  "Read br len_p =
     (case br_err br of
        Some e \<Rightarrow> (([], Some e), br)
      | None \<Rightarrow>
          (case buf_Read (br_src br) len_p (r_state (br_src br)) of
             ((p_n, err), s') \<Rightarrow>
               br_after_transfer
                 (br\<lparr>br_src := (br_src br)\<lparr>r_state := s'\<rparr>,
                     br_trace := br_trace br @ [Ev_buf_Read len_p]\<rparr>) p_n err))"

definition ReadAt ::
  "('a, 'w, 'c) BufferedReader \<Rightarrow> nat \<Rightarrow> int
     \<Rightarrow> (bytes \<times> error option) \<times> ('a, 'w, 'c) BufferedReader" where
  "ReadAt br len_p off =
     (case br_srcAt br of
        None \<Rightarrow> (([], Some (errors_New ''ReadAt not supported'')), br)
      | Some readAt \<Rightarrow>
          (case br_err br of
             Some e \<Rightarrow> (([], Some e), br)
           | None \<Rightarrow>
               (case readAt len_p off (r_state (br_src br)) of
                  ((p_n, err), s') \<Rightarrow>
                    br_after_transfer
                      (br\<lparr>br_src := (br_src br)\<lparr>r_state := s'\<rparr>,
                          br_trace := br_trace br @ [Ev_ReadAt len_p off]\<rparr>) p_n err)))"

text \<open>
  \<open>Results\<close>: the loop writes \<open>out[cb.Name()] = cb.Result()\<close> in the order of the list,
  so a later observer overwrites an earlier one of the same name.
\<close>

fun Results_loop ::
  "('w, 'c) Callback list \<Rightarrow> (string \<rightharpoonup> any) \<Rightarrow> (string \<rightharpoonup> any)" where
  "Results_loop [] out = out"
| "Results_loop (cb # cbs) out = Results_loop cbs (out(Name cb \<mapsto> Result cb))"

definition Results :: "('a, 'w, 'c) BufferedReader \<Rightarrow> (string \<rightharpoonup> any)" where
  "Results br = Results_loop (br_callbacks br) Map.empty"

section \<open>The buffered write engine\<close>

record ('a, 'w, 'c) BufferedWriter =
  bw_dst :: "'a io_Writer"
  bw_dstAt :: "(bytes \<Rightarrow> int \<Rightarrow> 'a \<Rightarrow> (nat \<times> error option) \<times> 'a) option"
  bw_callbacks :: "('w, 'c) Callback list"
  bw_err :: "error option"
  bw_closed :: bool
  bw_trace :: "event list"

definition NewWriter ::
  "'a io_Writer \<Rightarrow> ('w, 'c) Callback list \<Rightarrow> ('a, 'w, 'c) BufferedWriter" where
  "NewWriter w cbs =
     \<lparr>bw_dst = w, bw_dstAt = WriterAt w, bw_callbacks = cbs, bw_err = None,
      bw_closed = False, bw_trace = []\<rparr>"

definition BufferedWriter_dispatch ::
  "('a, 'w, 'c) BufferedWriter \<Rightarrow> bytes \<Rightarrow> error option \<times> ('a, 'w, 'c) BufferedWriter" where
  "BufferedWriter_dispatch bw chunk =
     (case dispatch (bw_callbacks bw) chunk (bw_trace bw) of
        (err, cbs', tr') \<Rightarrow> (err, bw\<lparr>bw_callbacks := cbs', bw_trace := tr'\<rparr>))"

text \<open>
  The part that \<open>Write\<close> and \<open>WriteAt\<close> share after the transfer of \<open>n\<close> bytes of \<open>p\<close>;
  the observers get \<open>p[:n]\<close>.  A writer returns \<open>n \<le> len(p)\<close>; offsets are \<open>int64\<close> values
  that the engine only passes on, modelled as integers.
\<close>

definition bw_after_transfer ::
  "('a, 'w, 'c) BufferedWriter \<Rightarrow> bytes \<Rightarrow> nat \<Rightarrow> error option
     \<Rightarrow> (nat \<times> error option) \<times> ('a, 'w, 'c) BufferedWriter" where
  "bw_after_transfer bw p n err =
     (if n > 0 \<and> length (bw_callbacks bw) > 0 then
        (case BufferedWriter_dispatch bw (take n p) of
           (Some cbErr, bw') \<Rightarrow> ((n, Some cbErr), bw'\<lparr>bw_err := Some cbErr\<rparr>)
         | (None, bw') \<Rightarrow> ((n, err), bw'))
      else ((n, err), bw))"

definition Write ::
  "('a, 'w, 'c) BufferedWriter \<Rightarrow> bytes
     \<Rightarrow> (nat \<times> error option) \<times> ('a, 'w, 'c) BufferedWriter" where
  "Write bw p =
     (case bw_err bw of
        Some e \<Rightarrow> ((0, Some e), bw)
      | None \<Rightarrow>
          (case buf_Write (bw_dst bw) p (w_state (bw_dst bw)) of
             ((n, err), s') \<Rightarrow>
               bw_after_transfer
                 (bw\<lparr>bw_dst := (bw_dst bw)\<lparr>w_state := s'\<rparr>,
                     bw_trace := bw_trace bw @ [Ev_buf_Write p]\<rparr>) p n err))"

text \<open>
  \<open>Flush\<close> returns \<open>bw.err\<close> after storing the error of the buffered flush in it; the
  slot was nil before, so it is the error of the flush, or nil.
\<close>

definition Flush ::
  "('a, 'w, 'c) BufferedWriter \<Rightarrow> error option \<times> ('a, 'w, 'c) BufferedWriter" where
  "Flush bw =
     (case bw_err bw of
        Some e \<Rightarrow> (Some e, bw)
      | None \<Rightarrow>
          (case buf_Flush (bw_dst bw) (w_state (bw_dst bw)) of
             (err, s') \<Rightarrow>
               (err, bw\<lparr>bw_dst := (bw_dst bw)\<lparr>w_state := s'\<rparr>,
                        bw_err := err,
                        bw_trace := bw_trace bw @ [Ev_buf_Flush]\<rparr>)))"

definition WriteAt ::
  "('a, 'w, 'c) BufferedWriter \<Rightarrow> bytes \<Rightarrow> int
     \<Rightarrow> (nat \<times> error option) \<times> ('a, 'w, 'c) BufferedWriter" where
  "WriteAt bw p off =
     (case bw_dstAt bw of
        None \<Rightarrow> ((0, Some (errors_New ''WriteAt not supported'')), bw)
      | Some writeAt \<Rightarrow>
          (case bw_err bw of
             Some e \<Rightarrow> ((0, Some e), bw)
           | None \<Rightarrow>
               (case writeAt p off (w_state (bw_dst bw)) of
                  ((n, err), s') \<Rightarrow>
                    bw_after_transfer
                      (bw\<lparr>bw_dst := (bw_dst bw)\<lparr>w_state := s'\<rparr>,
                          bw_trace := bw_trace bw @ [Ev_WriteAt p off]\<rparr>) p n err)))"

definition BufferedWriter_Results :: "('a, 'w, 'c) BufferedWriter \<Rightarrow> (string \<rightharpoonup> any)" where
  "BufferedWriter_Results bw = Results_loop (bw_callbacks bw) Map.empty"

text \<open>
  \<open>Close\<close>: the compare-and-swap on \<open>closed\<close> comes first; then \<open>Flush\<close>, and the close
  of the sink when it is an \<open>io.Closer\<close>.  The engine is used by one caller at a time,
  so the compare-and-swap is a test followed by an assignment.
\<close>

definition Close ::
  "('a, 'w, 'c) BufferedWriter \<Rightarrow> error option \<times> ('a, 'w, 'c) BufferedWriter" where
  "Close bw =
     (if bw_closed bw then (None, bw)
      else
        (case Flush (bw\<lparr>bw_closed := True\<rparr>) of
           (Some e, bw') \<Rightarrow> (Some e, bw')
         | (None, bw') \<Rightarrow>
             (case Closer (bw_dst bw') of
                Some closer_Close \<Rightarrow>
                  (case closer_Close (w_state (bw_dst bw')) of
                     (cerr, s') \<Rightarrow>
                       (cerr, bw'\<lparr>bw_dst := (bw_dst bw')\<lparr>w_state := s'\<rparr>,
                                  bw_trace := bw_trace bw' @ [Ev_Close]\<rparr>))
              | None \<Rightarrow> (None, bw'))))"

section \<open>The functions of streamutil.go\<close>

text \<open>
  \<open>Reader\<close> and \<open>Writer\<close> return an interface value: the stream that was passed in, or a
  new engine around it.
\<close>

datatype ('a, 'w, 'c) Reader_value =
    PlainReader "'a io_Reader"
  | EngineReader "('a, 'w, 'c) BufferedReader"

datatype ('a, 'w, 'c) Writer_value =
    PlainWriter "'a io_Writer"
  | EngineWriter "('a, 'w, 'c) BufferedWriter"

definition Reader ::
  "'a io_Reader \<Rightarrow> ('w, 'c) Callback list \<Rightarrow> ('a, 'w, 'c) Reader_value" where
  "Reader r callbacks =
     (if length callbacks = 0 then PlainReader r else EngineReader (NewReader r callbacks))"

definition Writer ::
  "'a io_Writer \<Rightarrow> ('w, 'c) Callback list \<Rightarrow> ('a, 'w, 'c) Writer_value" where
  "Writer w callbacks =
     (if length callbacks = 0 then PlainWriter w else EngineWriter (NewWriter w callbacks))"

definition TeeReader ::
  "'a io_Reader \<Rightarrow> 'w io_Writer \<Rightarrow> ('w, 'c) Callback list \<Rightarrow> ('a, 'w, 'c) Reader_value" where
  "TeeReader r w callbacks =
     Reader r ([TeeWriter \<lparr>tee_w = w, tee_errPtr = None\<rparr>] @ callbacks)"

section \<open>The hash observer\<close>

text \<open>
  A \<open>hash.Hash\<close> of the standard library is the algorithm that made it and the bytes
  written to it so far; \<open>Sum(nil)\<close> is the digest of those bytes.  The digest functions
  themselves are a parameter \<open>digest\<close>.
\<close>

datatype hash_alg = MD5 | SHA1 | SHA256 | SHA512

record hash_Hash =
  h_alg :: hash_alg
  h_written :: bytes

definition md5_New :: hash_Hash where "md5_New = \<lparr>h_alg = MD5, h_written = []\<rparr>"
definition sha1_New :: hash_Hash where "sha1_New = \<lparr>h_alg = SHA1, h_written = []\<rparr>"
definition sha256_New :: hash_Hash where "sha256_New = \<lparr>h_alg = SHA256, h_written = []\<rparr>"
definition sha512_New :: hash_Hash where "sha512_New = \<lparr>h_alg = SHA512, h_written = []\<rparr>"

definition hash_Write :: "hash_Hash \<Rightarrow> bytes \<Rightarrow> hash_Hash" where
  "hash_Write h chunk = h\<lparr>h_written := h_written h @ chunk\<rparr>"

definition hash_Sum :: "(hash_alg \<Rightarrow> bytes \<Rightarrow> bytes) \<Rightarrow> hash_Hash \<Rightarrow> bytes" where
  "hash_Sum digest h = digest (h_alg h) (h_written h)"

record HashCallback =
  hc_name :: string
  hc_h :: hash_Hash

definition NewHashCallback :: "string \<Rightarrow> HashCallback" where
  "NewHashCallback algorithm =
     (if algorithm = ''md5'' then \<lparr>hc_name = algorithm, hc_h = md5_New\<rparr>
      else if algorithm = ''sha1'' then \<lparr>hc_name = algorithm, hc_h = sha1_New\<rparr>
      else if algorithm = ''sha256'' then \<lparr>hc_name = algorithm, hc_h = sha256_New\<rparr>
      else if algorithm = ''sha512'' then \<lparr>hc_name = algorithm, hc_h = sha512_New\<rparr>
      else \<lparr>hc_name = ''sha256'', hc_h = sha256_New\<rparr>)"

definition HashCallback_Name :: "HashCallback \<Rightarrow> string" where
  "HashCallback_Name hc = hc_name hc"

definition HashCallback_OnData :: "HashCallback \<Rightarrow> bytes \<Rightarrow> error option \<times> HashCallback" where
  "HashCallback_OnData hc chunk = (None, hc\<lparr>hc_h := hash_Write (hc_h hc) chunk\<rparr>)"

definition HashCallback_Result :: "(hash_alg \<Rightarrow> bytes \<Rightarrow> bytes) \<Rightarrow> HashCallback \<Rightarrow> any" where
  "HashCallback_Result digest hc = AnyBytes (hash_Sum digest (hc_h hc))"

text \<open>The observer after a sequence of chunks, each handed to \<open>OnData\<close> in turn.\<close>

fun HashCallback_feed :: "HashCallback \<Rightarrow> bytes list \<Rightarrow> HashCallback" where
  "HashCallback_feed hc [] = hc"
| "HashCallback_feed hc (chunk # chunks) =
     HashCallback_feed (snd (HashCallback_OnData hc chunk)) chunks"

section \<open>Notions used to state the properties\<close>

text \<open>
  An observer accepts a chunk when its \<open>OnData\<close> returns nil.  \<open>invoked cbs chunk\<close> is
  the number of observers that a dispatch of \<open>chunk\<close> reaches: all of them when all
  accept, otherwise those up to and including the first that does not.
\<close>

definition accepts :: "('w, 'c) Callback \<Rightarrow> bytes \<Rightarrow> bool" where
  "accepts cb chunk = (fst (OnData cb chunk) = Return None)"

definition invoked :: "('w, 'c) Callback list \<Rightarrow> bytes \<Rightarrow> nat" where
  "invoked cbs chunk =
     min (length cbs) (Suc (length (takeWhile (\<lambda>cb. accepts cb chunk) cbs)))"

text \<open>The events of a dispatch that reaches the first \<open>m\<close> observers.\<close>

definition OnData_events :: "nat \<Rightarrow> bytes \<Rightarrow> event list" where
  "OnData_events m chunk = map (\<lambda>k. Ev_OnData k chunk) [0..<m]"

text \<open>The observers after such a dispatch: the first \<open>m\<close> have each taken the chunk once.\<close>

definition after_OnData :: "nat \<Rightarrow> bytes \<Rightarrow> ('w, 'c) Callback list \<Rightarrow> ('w, 'c) Callback list" where
  "after_OnData m chunk cbs = map (\<lambda>cb. snd (OnData cb chunk)) (take m cbs) @ drop m cbs"

text \<open>The error that a dispatch of \<open>chunk\<close> to \<open>cbs\<close> returns.\<close>

definition dispatch_err :: "('w, 'c) Callback list \<Rightarrow> bytes \<Rightarrow> error option" where
  "dispatch_err cbs chunk = fst (dispatch cbs chunk [])"

section \<open>Test doubles\<close>

text \<open>
  A source whose buffered reads give the listed results in turn and end-of-stream after
  them; it has no positional read.
\<close>

definition scriptReader ::
  "(bytes \<times> error option) list \<Rightarrow> ((bytes \<times> error option) list) io_Reader" where
  "scriptReader rs =
     \<lparr>buf_Read = (\<lambda>n s. case s of [] \<Rightarrow> (([], Some EOF), []) | r # s' \<Rightarrow> (r, s')),
      ReaderAt = None,
      r_state = rs\<rparr>"

text \<open>
  A sink whose writes give the listed results in turn and accept everything after them,
  whose flush gives \<open>flushErr\<close>, and which is an \<open>io.Closer\<close> giving \<open>ce\<close> when
  \<open>closeErr = Some ce\<close>; it has no positional write.
\<close>

definition scriptWriter ::
  "(nat \<times> error option) list \<Rightarrow> error option \<Rightarrow> error option option
     \<Rightarrow> ((nat \<times> error option) list) io_Writer" where
  "scriptWriter ws flushErr closeErr =
     \<lparr>Write_m = (\<lambda>p s. case s of [] \<Rightarrow> ((length p, None), []) | r # s' \<Rightarrow> (r, s')),
      buf_Write = (\<lambda>p s. case s of [] \<Rightarrow> ((length p, None), []) | r # s' \<Rightarrow> (r, s')),
      buf_Flush = (\<lambda>s. (flushErr, s)),
      WriterAt = None,
      Closer = (case closeErr of None \<Rightarrow> None | Some ce \<Rightarrow> Some (\<lambda>s. (ce, s))),
      w_state = ws\<rparr>"

text \<open>
  \<open>testCallback\<close> of the reader tests: it panics when \<open>panicMsg\<close> is not empty, returns
  \<open>err\<close> when that is not nil, and records the chunk otherwise; its result is the number
  of recorded chunks.
\<close>

definition testCallback :: "string \<Rightarrow> error option \<Rightarrow> string \<Rightarrow> (bytes list) callback_impl" where
  "testCallback name err panicMsg =
     \<lparr>impl_Name = name,
      impl_OnData = (\<lambda>chunk chunks.
         if panicMsg \<noteq> [] then (Panic (PanicString panicMsg), chunks)
         else (case err of Some e \<Rightarrow> (Return (Some e), chunks)
                         | None \<Rightarrow> (Return None, chunks @ [chunk]))),
      impl_Result = (\<lambda>chunks. AnyInt (int (length chunks))),
      impl_state = []\<rparr>"

text \<open>
  \<open>mockReaderAt\<close> of the reader tests: a positional read copies from \<open>data[off:]\<close> and
  reports end-of-stream when it could not fill \<open>p\<close>; the data do not change.
\<close>

definition mockReaderAt :: "bytes \<Rightarrow> bytes io_Reader" where
  "mockReaderAt data =
     \<lparr>buf_Read = (\<lambda>n s. if s = [] then (([], Some EOF), s) else ((take n s, None), drop n s)),
      ReaderAt = Some (\<lambda>n off s.
         if off \<ge> int (length s) then (([], Some EOF), s)
         else ((take n (drop (nat off) s),
                if length (drop (nat off) s) < n then Some EOF else None), s)),
      r_state = data\<rparr>"

text \<open>
  \<open>mockWriter\<close> of the writer tests: a positional write stores a copy of \<open>p\<close> under its
  offset.
\<close>

definition mockWriter :: "((int \<times> bytes) list) io_Writer" where
  "mockWriter =
     \<lparr>Write_m = (\<lambda>p s. ((length p, None), s)),
      buf_Write = (\<lambda>p s. ((length p, None), s)),
      buf_Flush = (\<lambda>s. (None, s)),
      WriterAt = Some (\<lambda>p off s. ((length p, None), s @ [(off, p)])),
      Closer = None,
      w_state = []\<rparr>"

text \<open>
  A stand-in for the digest functions, to run the hash observer on: the digest is a
  tag of the algorithm followed by the data.
\<close>

fun tag_digest :: "hash_alg \<Rightarrow> bytes \<Rightarrow> bytes" where
  "tag_digest MD5 d = 1 # d"
| "tag_digest SHA1 d = 2 # d"
| "tag_digest SHA256 d = 3 # d"
| "tag_digest SHA512 d = 4 # d"

text \<open>The bytes of "hi" and of "hello".\<close>

definition hi :: bytes where "hi = [104, 105]"
definition hello :: bytes where "hello = [104, 101, 108, 108, 111]"

text \<open>Engines and observers built from the doubles.\<close>

type_synonym rscript = "(bytes \<times> error option) list"
type_synonym wscript = "(nat \<times> error option) list"
type_synonym test_cb = "(wscript, bytes list) Callback"

definition recorder :: "string \<Rightarrow> test_cb" where
  "recorder name = Impl (testCallback name None [])"

definition failing :: "string \<Rightarrow> string \<Rightarrow> test_cb" where
  "failing name msg = Impl (testCallback name (Some (errorString msg)) [])"


definition hello_reader :: "test_cb list \<Rightarrow> (rscript, wscript, bytes list) BufferedReader" where
  "hello_reader cbs = NewReader (scriptReader [(hello, None)]) cbs"

definition plain_writer :: "test_cb list \<Rightarrow> (wscript, wscript, bytes list) BufferedWriter" where
  "plain_writer cbs = NewWriter (scriptWriter [] None None) cbs"

definition closing_writer ::
  "error option \<Rightarrow> error option \<Rightarrow> (wscript, wscript, bytes list) BufferedWriter" where
  "closing_writer flushErr closeErr = NewWriter (scriptWriter [] flushErr (Some closeErr)) []"

definition tee_reader ::
  "wscript io_Writer \<Rightarrow> test_cb list \<Rightarrow> (rscript, wscript, bytes list) BufferedReader" where
  "tee_reader w cbs =
     NewReader (scriptReader [(hello, None), (hi, None)])
       (TeeWriter \<lparr>tee_w = w, tee_errPtr = None\<rparr> # cbs)"



text \<open>\<open>errorWriter\<close> of the reader tests, failing once.\<close>

definition errorWriter :: "error \<Rightarrow> wscript io_Writer" where
  "errorWriter err = scriptWriter [(0, Some err)] None None"

text \<open>The observers of the test "dispatch stops on first error".\<close>

definition three_cbs :: "test_cb list" where
  "three_cbs = [recorder ''cb1'', failing ''cb2'' ''cb2 error'', recorder ''cb3'']"

text \<open>A recorder that has taken the given chunks.\<close>

definition recorded :: "string \<Rightarrow> bytes list \<Rightarrow> test_cb" where
  "recorded name chunks = Impl ((testCallback name None [])\<lparr>impl_state := chunks\<rparr>)"

definition at_reader :: "test_cb list \<Rightarrow> (bytes, wscript, bytes list) BufferedReader" where
  "at_reader cbs = NewReader (mockReaderAt hello) cbs"

definition at_writer :: "test_cb list \<Rightarrow> ((int \<times> bytes) list, wscript, bytes list) BufferedWriter" where
  "at_writer cbs = NewWriter mockWriter cbs"

section \<open>Properties of the dispatch loop\<close>

lemma invoked_Nil: "invoked [] chunk = 0"
  by (simp add: invoked_def)

lemma invoked_Cons:
  "invoked (cb # cbs) chunk = (if accepts cb chunk then Suc (invoked cbs chunk) else 1)"
  by (simp add: invoked_def)

lemma invoked_le: "invoked cbs chunk \<le> length cbs"
  by (simp add: invoked_def)

lemma invoked_all: "(\<forall>cb\<in>set cbs. accepts cb chunk) \<Longrightarrow> invoked cbs chunk = length cbs"
  by (induction cbs) (simp_all add: invoked_Nil invoked_Cons)

lemma invoked_first:
  "k < length cbs \<Longrightarrow> \<not> accepts (cbs ! k) chunk \<Longrightarrow> (\<forall>j<k. accepts (cbs ! j) chunk)
     \<Longrightarrow> invoked cbs chunk = Suc k"
proof (induction cbs arbitrary: k)
  case Nil
  then show ?case by simp
next
  case (Cons cb cbs)
  show ?case
  proof (cases k)
    case 0
    with Cons.prems show ?thesis by (simp add: invoked_Cons)
  next
    case (Suc k')
    have a: "accepts cb chunk" using Cons.prems(3) Suc by auto
    have "invoked cbs chunk = Suc k'"
    proof (rule Cons.IH)
      show "k' < length cbs" using Cons.prems(1) Suc by simp
      show "\<not> accepts (cbs ! k') chunk" using Cons.prems(2) Suc by simp
      show "\<forall>j<k'. accepts (cbs ! j) chunk"
      proof (intro allI impI)
        fix j assume "j < k'"
        then have "Suc j < k" using Suc by simp
        then have "accepts ((cb # cbs) ! Suc j) chunk" using Cons.prems(3) by blast
        then show "accepts (cbs ! j) chunk" by simp
      qed
    qed
    then show ?thesis using a Suc by (simp add: invoked_Cons)
  qed
qed

lemma dispatch_loop_trace:
  "snd (snd (dispatch_loop cbs chunk i tr)) =
     tr @ map (\<lambda>k. Ev_OnData k chunk) [i..<i + invoked cbs chunk]"
proof (induction cbs arbitrary: i tr)
  case Nil
  show ?case by (simp add: invoked_Nil)
next
  case (Cons cb cbs)
  show ?case
  proof (cases "OnData cb chunk")
    case (Pair r cb')
    show ?thesis
    proof (cases "r = Return None")
      case True
      have "snd (snd (dispatch_loop (cb # cbs) chunk i tr)) =
              snd (snd (dispatch_loop cbs chunk (Suc i) (tr @ [Ev_OnData i chunk])))"
        using Pair True by (simp split: prod.splits)
      also have "\<dots> = (tr @ [Ev_OnData i chunk]) @ map (\<lambda>k. Ev_OnData k chunk) [Suc i..<Suc i + invoked cbs chunk]"
        by (rule Cons.IH)
      also have "\<dots> = tr @ map (\<lambda>k. Ev_OnData k chunk) [i..<i + invoked (cb # cbs) chunk]"
        using Pair True by (simp add: invoked_Cons accepts_def upt_conv_Cons)
      finally show ?thesis .
    next
      case False
      then show ?thesis using Pair
        by (cases r) (auto simp: invoked_Cons accepts_def split: option.splits)
    qed
  qed
qed

lemma dispatch_loop_cbs:
  "fst (snd (dispatch_loop cbs chunk i tr)) = after_OnData (invoked cbs chunk) chunk cbs"
proof (induction cbs arbitrary: i tr)
  case Nil
  show ?case by (simp add: invoked_Nil after_OnData_def)
next
  case (Cons cb cbs)
  show ?case
  proof (cases "OnData cb chunk")
    case (Pair r cb')
    show ?thesis
    proof (cases "r = Return None")
      case True
      have "fst (snd (dispatch_loop (cb # cbs) chunk i tr)) =
              cb' # fst (snd (dispatch_loop cbs chunk (Suc i) (tr @ [Ev_OnData i chunk])))"
        using Pair True by (simp split: prod.splits)
      also have "\<dots> = cb' # after_OnData (invoked cbs chunk) chunk cbs"
        by (simp add: Cons.IH)
      also have "\<dots> = after_OnData (invoked (cb # cbs) chunk) chunk (cb # cbs)"
        using Pair True by (simp add: invoked_Cons accepts_def after_OnData_def)
      finally show ?thesis .
    next
      case False
      then show ?thesis using Pair
        by (cases r) (auto simp: invoked_Cons accepts_def after_OnData_def split: option.splits)
    qed
  qed
qed

text \<open>The outcome of the loop is nil exactly when every observer accepts.\<close>

lemma dispatch_loop_ok:
  "(fst (dispatch_loop cbs chunk i tr) = Return None) = (\<forall>cb\<in>set cbs. accepts cb chunk)"
proof (induction cbs arbitrary: i tr)
  case Nil
  show ?case by simp
next
  case (Cons cb cbs)
  show ?case
  proof (cases "OnData cb chunk")
    case (Pair r cb')
    show ?thesis
    proof (cases "r = Return None")
      case True
      have "fst (dispatch_loop (cb # cbs) chunk i tr) =
              fst (dispatch_loop cbs chunk (Suc i) (tr @ [Ev_OnData i chunk]))"
        using Pair True by (simp split: prod.splits)
      then show ?thesis using Cons.IH Pair True by (simp add: accepts_def)
    next
      case False
      then show ?thesis using Pair
        by (cases r) (auto simp: accepts_def split: option.splits)
    qed
  qed
qed

text \<open>Otherwise the outcome is that of the first observer that does not accept.\<close>

lemma dispatch_loop_first:
  "k < length cbs \<Longrightarrow> \<not> accepts (cbs ! k) chunk \<Longrightarrow> (\<forall>j<k. accepts (cbs ! j) chunk)
     \<Longrightarrow> fst (dispatch_loop cbs chunk i tr) = fst (OnData (cbs ! k) chunk)"
proof (induction cbs arbitrary: k i tr)
  case Nil
  then show ?case by simp
next
  case (Cons cb cbs)
  show ?case
  proof (cases k)
    case 0
    obtain r cb' where p: "OnData cb chunk = (r, cb')" by (cases "OnData cb chunk")
    have "r \<noteq> Return None" using Cons.prems(2) 0 p by (simp add: accepts_def)
    then show ?thesis using p 0
      by (cases r) (auto split: option.splits)
  next
    case (Suc k')
    have a: "accepts cb chunk" using Cons.prems(3) Suc by auto
    obtain cb' where p: "OnData cb chunk = (Return None, cb')"
      using a by (cases "OnData cb chunk") (simp add: accepts_def)
    have "fst (dispatch_loop cbs chunk (Suc i) (tr @ [Ev_OnData i chunk])) = fst (OnData (cbs ! k') chunk)"
    proof (rule Cons.IH)
      show "k' < length cbs" using Cons.prems(1) Suc by simp
      show "\<not> accepts (cbs ! k') chunk" using Cons.prems(2) Suc by simp
      show "\<forall>j<k'. accepts (cbs ! j) chunk"
      proof (intro allI impI)
        fix j assume "j < k'"
        then have "Suc j < k" using Suc by simp
        then have "accepts ((cb # cbs) ! Suc j) chunk" using Cons.prems(3) by blast
        then show "accepts (cbs ! j) chunk" by simp
      qed
    qed
    then show ?thesis using p Suc by (auto split: prod.splits)
  qed
qed

section \<open>Properties of dispatch and of the transfer step\<close>

lemma length_takeWhile_lt:
  "\<not> (\<forall>x\<in>set xs. P x) \<Longrightarrow> length (takeWhile P xs) < length xs"
  by (induction xs) auto

lemma dispatch_loop_fst_indep:
  "fst (dispatch_loop cbs chunk i tr) = fst (dispatch_loop cbs chunk 0 [])"
proof (cases "\<forall>cb\<in>set cbs. accepts cb chunk")
  case True
  then show ?thesis using dispatch_loop_ok [of cbs chunk i tr] dispatch_loop_ok [of cbs chunk 0 "[]"]
    by simp
next
  case False
  define k where "k = length (takeWhile (\<lambda>cb. accepts cb chunk) cbs)"
  have k1: "k < length cbs"
    using False unfolding k_def by (rule length_takeWhile_lt)
  have k2: "\<not> accepts (cbs ! k) chunk"
    using k1 unfolding k_def by (rule nth_length_takeWhile)
  have k3: "\<forall>j<k. accepts (cbs ! j) chunk"
  proof (intro allI impI)
    fix j assume "j < k"
    then have "j < length (takeWhile (\<lambda>cb. accepts cb chunk) cbs)" by (simp add: k_def)
    then have "accepts (takeWhile (\<lambda>cb. accepts cb chunk) cbs ! j) chunk"
      using nth_mem set_takeWhileD by metis
    then show "accepts (cbs ! j) chunk"
      using \<open>j < length (takeWhile (\<lambda>cb. accepts cb chunk) cbs)\<close> by (simp add: takeWhile_nth)
  qed
  show ?thesis
    using dispatch_loop_first [OF k1 k2 k3, of i tr] dispatch_loop_first [OF k1 k2 k3, of 0 "[]"]
    by simp
qed

lemma dispatch_eq:
  "dispatch cbs chunk tr =
     (dispatch_err cbs chunk, after_OnData (invoked cbs chunk) chunk cbs,
      tr @ OnData_events (invoked cbs chunk) chunk)"
proof -
  obtain r cbs' tr' where l: "dispatch_loop cbs chunk 0 tr = (r, cbs', tr')"
    by (cases "dispatch_loop cbs chunk 0 tr") auto
  obtain r0 cbs0 tr0 where l0: "dispatch_loop cbs chunk 0 [] = (r0, cbs0, tr0)"
    by (cases "dispatch_loop cbs chunk 0 []") auto
  have r: "r0 = r" using dispatch_loop_fst_indep [of cbs chunk 0 tr] l l0 by simp
  have c: "cbs' = after_OnData (invoked cbs chunk) chunk cbs"
    using dispatch_loop_cbs [of cbs chunk 0 tr] l by simp
  have t: "tr' = tr @ OnData_events (invoked cbs chunk) chunk"
    using dispatch_loop_trace [of cbs chunk 0 tr] l by (simp add: OnData_events_def)
  show ?thesis
    using l l0 r c t by (cases r) (simp_all add: dispatch_def dispatch_err_def)
qed

lemma dispatch_err_ok:
  "(dispatch_err cbs chunk = None) = (\<forall>cb\<in>set cbs. accepts cb chunk)"
proof -
  obtain r cbs0 tr0 where l0: "dispatch_loop cbs chunk 0 [] = (r, cbs0, tr0)"
    by (cases "dispatch_loop cbs chunk 0 []") auto
  have "(dispatch_err cbs chunk = None) = (r = Return None)"
    using l0 by (cases r) (simp_all add: dispatch_def dispatch_err_def)
  then show ?thesis using dispatch_loop_ok [of cbs chunk 0 "[]"] l0 by simp
qed

lemma dispatch_err_first:
  assumes "k < length cbs" and "\<not> accepts (cbs ! k) chunk" and "\<forall>j<k. accepts (cbs ! j) chunk"
  shows "dispatch_err cbs chunk =
           (case fst (OnData (cbs ! k) chunk) of
              Return err \<Rightarrow> err
            | Panic r \<Rightarrow> Some (errors_New (''callback panic: '' @ formatPanic r)))"
proof -
  obtain r cbs0 tr0 where l0: "dispatch_loop cbs chunk 0 [] = (r, cbs0, tr0)"
    by (cases "dispatch_loop cbs chunk 0 []") auto
  have "fst (OnData (cbs ! k) chunk) = r"
    using dispatch_loop_first [OF assms, of 0 "[]"] l0 by simp
  then show ?thesis using l0
    by (cases r) (simp_all add: dispatch_def dispatch_err_def)
qed

lemma dispatch_err_Nil: "dispatch_err [] chunk = None"
  by (simp add: dispatch_err_def dispatch_def)

lemma BufferedReader_dispatch_eq:
  "BufferedReader_dispatch br chunk =
     (dispatch_err (br_callbacks br) chunk,
      br\<lparr>br_callbacks := after_OnData (invoked (br_callbacks br) chunk) chunk (br_callbacks br),
         br_trace := br_trace br @ OnData_events (invoked (br_callbacks br) chunk) chunk\<rparr>)"
  by (simp add: BufferedReader_dispatch_def dispatch_eq)

lemma BufferedWriter_dispatch_eq:
  "BufferedWriter_dispatch bw chunk =
     (dispatch_err (bw_callbacks bw) chunk,
      bw\<lparr>bw_callbacks := after_OnData (invoked (bw_callbacks bw) chunk) chunk (bw_callbacks bw),
         bw_trace := bw_trace bw @ OnData_events (invoked (bw_callbacks bw) chunk) chunk\<rparr>)"
  by (simp add: BufferedWriter_dispatch_def dispatch_eq)

lemma br_after_transfer_eq:
  "p_n \<noteq> [] \<Longrightarrow>
   br_after_transfer br p_n err =
     ((p_n, case dispatch_err (br_callbacks br) p_n of Some cbErr \<Rightarrow> Some cbErr | None \<Rightarrow> err),
      br\<lparr>br_callbacks := after_OnData (invoked (br_callbacks br) p_n) p_n (br_callbacks br),
         br_err := (case dispatch_err (br_callbacks br) p_n of
                      Some cbErr \<Rightarrow> Some cbErr | None \<Rightarrow> br_err br),
         br_trace := br_trace br @ OnData_events (invoked (br_callbacks br) p_n) p_n\<rparr>)"
proof (cases "br_callbacks br = []")
  case True
  then show ?thesis
    by (simp add: br_after_transfer_def dispatch_err_Nil invoked_Nil OnData_events_def
        after_OnData_def)
next
  case False
  assume "p_n \<noteq> []"
  then show ?thesis using False
    by (cases "dispatch_err (br_callbacks br) p_n")
       (simp_all add: br_after_transfer_def BufferedReader_dispatch_eq)
qed

lemma br_after_transfer_empty: "br_after_transfer br [] err = (([], err), br)"
  by (simp add: br_after_transfer_def)

lemma bw_after_transfer_eq:
  "0 < n \<Longrightarrow>
   bw_after_transfer bw p n err =
     ((n, case dispatch_err (bw_callbacks bw) (take n p) of
            Some cbErr \<Rightarrow> Some cbErr | None \<Rightarrow> err),
      bw\<lparr>bw_callbacks :=
           after_OnData (invoked (bw_callbacks bw) (take n p)) (take n p) (bw_callbacks bw),
         bw_err := (case dispatch_err (bw_callbacks bw) (take n p) of
                      Some cbErr \<Rightarrow> Some cbErr | None \<Rightarrow> bw_err bw),
         bw_trace :=
           bw_trace bw @ OnData_events (invoked (bw_callbacks bw) (take n p)) (take n p)\<rparr>)"
proof (cases "bw_callbacks bw = []")
  case True
  then show ?thesis
    by (simp add: bw_after_transfer_def dispatch_err_Nil invoked_Nil OnData_events_def
        after_OnData_def)
next
  case False
  assume "0 < n"
  then show ?thesis using False
    by (cases "dispatch_err (bw_callbacks bw) (take n p)")
       (simp_all add: bw_after_transfer_def BufferedWriter_dispatch_eq)
qed

lemma bw_after_transfer_zero: "bw_after_transfer bw p 0 err = ((0, err), bw)"
  by (simp add: bw_after_transfer_def)

section \<open>Properties of the engine operations\<close>

lemma Read_sticky: "br_err br = Some e \<Longrightarrow> Read br n = (([], Some e), br)"
  by (simp add: Read_def)

lemma ReadAt_sticky:
  "br_srcAt br = Some readAt \<Longrightarrow> br_err br = Some e \<Longrightarrow> ReadAt br n off = (([], Some e), br)"
  by (simp add: ReadAt_def)

lemma ReadAt_unsupported:
  "br_srcAt br = None \<Longrightarrow>
     ReadAt br n off = (([], Some (errorString ''ReadAt not supported'')), br)"
  by (simp add: ReadAt_def errors_New_def)



lemma WriteAt_unsupported:
  "bw_dstAt bw = None \<Longrightarrow>
     WriteAt bw p off = ((0, Some (errorString ''WriteAt not supported'')), bw)"
  by (simp add: WriteAt_def errors_New_def)



lemma Read_empty:
  "br_err br = None \<Longrightarrow> buf_Read (br_src br) n (r_state (br_src br)) = (([], e), s') \<Longrightarrow>
     Read br n = (([], e), br\<lparr>br_src := (br_src br)\<lparr>r_state := s'\<rparr>,
                              br_trace := br_trace br @ [Ev_buf_Read n]\<rparr>)"
  by (simp add: Read_def br_after_transfer_empty)

lemma Read_transfer:
  "br_err br = None \<Longrightarrow> buf_Read (br_src br) n (r_state (br_src br)) = ((chunk, e), s') \<Longrightarrow>
   chunk \<noteq> [] \<Longrightarrow>
     Read br n =
       ((chunk, case dispatch_err (br_callbacks br) chunk of Some cbErr \<Rightarrow> Some cbErr | None \<Rightarrow> e),
        br\<lparr>br_src := (br_src br)\<lparr>r_state := s'\<rparr>,
           br_callbacks := after_OnData (invoked (br_callbacks br) chunk) chunk (br_callbacks br),
           br_err := dispatch_err (br_callbacks br) chunk,
           br_trace := br_trace br @ Ev_buf_Read n # OnData_events (invoked (br_callbacks br) chunk) chunk\<rparr>)"
  by (cases "dispatch_err (br_callbacks br) chunk") (simp_all add: Read_def br_after_transfer_eq)

lemma ReadAt_empty:
  "br_srcAt br = Some readAt \<Longrightarrow> br_err br = None \<Longrightarrow>
   readAt n off (r_state (br_src br)) = (([], e), s') \<Longrightarrow>
     ReadAt br n off = (([], e), br\<lparr>br_src := (br_src br)\<lparr>r_state := s'\<rparr>,
                                    br_trace := br_trace br @ [Ev_ReadAt n off]\<rparr>)"
  by (simp add: ReadAt_def br_after_transfer_empty)

lemma ReadAt_transfer:
  "br_srcAt br = Some readAt \<Longrightarrow> br_err br = None \<Longrightarrow>
   readAt n off (r_state (br_src br)) = ((chunk, e), s') \<Longrightarrow> chunk \<noteq> [] \<Longrightarrow>
     ReadAt br n off =
       ((chunk, case dispatch_err (br_callbacks br) chunk of Some cbErr \<Rightarrow> Some cbErr | None \<Rightarrow> e),
        br\<lparr>br_src := (br_src br)\<lparr>r_state := s'\<rparr>,
           br_callbacks := after_OnData (invoked (br_callbacks br) chunk) chunk (br_callbacks br),
           br_err := dispatch_err (br_callbacks br) chunk,
           br_trace := br_trace br @ Ev_ReadAt n off # OnData_events (invoked (br_callbacks br) chunk) chunk\<rparr>)"
  by (cases "dispatch_err (br_callbacks br) chunk") (simp_all add: ReadAt_def br_after_transfer_eq)


lemma Write_transfer:
  "bw_err bw = None \<Longrightarrow> buf_Write (bw_dst bw) p (w_state (bw_dst bw)) = ((n, e), s') \<Longrightarrow>
   0 < n \<Longrightarrow>
     Write bw p =
       ((n, case dispatch_err (bw_callbacks bw) (take n p) of Some cbErr \<Rightarrow> Some cbErr | None \<Rightarrow> e),
        bw\<lparr>bw_dst := (bw_dst bw)\<lparr>w_state := s'\<rparr>,
           bw_callbacks :=
             after_OnData (invoked (bw_callbacks bw) (take n p)) (take n p) (bw_callbacks bw),
           bw_err := dispatch_err (bw_callbacks bw) (take n p),
           bw_trace := bw_trace bw @ Ev_buf_Write p #
             OnData_events (invoked (bw_callbacks bw) (take n p)) (take n p)\<rparr>)"
  by (cases "dispatch_err (bw_callbacks bw) (take n p)")
     (simp_all add: Write_def bw_after_transfer_eq)

lemma WriteAt_zero:
  "bw_dstAt bw = Some writeAt \<Longrightarrow> bw_err bw = None \<Longrightarrow>
   writeAt p off (w_state (bw_dst bw)) = ((0, e), s') \<Longrightarrow>
     WriteAt bw p off = ((0, e), bw\<lparr>bw_dst := (bw_dst bw)\<lparr>w_state := s'\<rparr>,
                                   bw_trace := bw_trace bw @ [Ev_WriteAt p off]\<rparr>)"
  by (simp add: WriteAt_def bw_after_transfer_zero)

lemma WriteAt_transfer:
  "bw_dstAt bw = Some writeAt \<Longrightarrow> bw_err bw = None \<Longrightarrow>
   writeAt p off (w_state (bw_dst bw)) = ((n, e), s') \<Longrightarrow> 0 < n \<Longrightarrow>
     WriteAt bw p off =
       ((n, case dispatch_err (bw_callbacks bw) (take n p) of Some cbErr \<Rightarrow> Some cbErr | None \<Rightarrow> e),
        bw\<lparr>bw_dst := (bw_dst bw)\<lparr>w_state := s'\<rparr>,
           bw_callbacks :=
             after_OnData (invoked (bw_callbacks bw) (take n p)) (take n p) (bw_callbacks bw),
           bw_err := dispatch_err (bw_callbacks bw) (take n p),
           bw_trace := bw_trace bw @ Ev_WriteAt p off #
             OnData_events (invoked (bw_callbacks bw) (take n p)) (take n p)\<rparr>)"
  by (cases "dispatch_err (bw_callbacks bw) (take n p)")
     (simp_all add: WriteAt_def bw_after_transfer_eq)

section \<open>Positional access on a stream without it\<close>

lemma srcAt_Read: "br_srcAt (snd (Read br n)) = br_srcAt br"
  by (auto simp: Read_def br_after_transfer_def BufferedReader_dispatch_def
      split: option.splits prod.splits)

lemma srcAt_ReadAt: "br_srcAt (snd (ReadAt br n off)) = br_srcAt br"
  by (auto simp: ReadAt_def br_after_transfer_def BufferedReader_dispatch_def
      split: option.splits prod.splits)

lemma dstAt_Write: "bw_dstAt (snd (Write bw p)) = bw_dstAt bw"
  by (auto simp: Write_def bw_after_transfer_def BufferedWriter_dispatch_def
      split: option.splits prod.splits)

lemma dstAt_WriteAt: "bw_dstAt (snd (WriteAt bw p off)) = bw_dstAt bw"
  by (auto simp: WriteAt_def bw_after_transfer_def BufferedWriter_dispatch_def
      split: option.splits prod.splits)

lemma dstAt_Flush: "bw_dstAt (snd (Flush bw)) = bw_dstAt bw"
  by (auto simp: Flush_def split: option.splits prod.splits)

lemma dstAt_Close: "bw_dstAt (snd (Close bw)) = bw_dstAt bw"
  using dstAt_Flush [of "bw\<lparr>bw_closed := True\<rparr>"]
  by (auto simp: Close_def split: option.splits prod.splits)

text \<open>
  C7: on an engine whose stream has no positional access, \<open>ReadAt\<close> and \<open>WriteAt\<close> return
  zero bytes and the error "ReadAt not supported" or "WriteAt not supported", and leave
  the engine as it was: no event is added to the trace (no sequential read or write, no
  call of an observer) and no state changes.  The capability is fixed by \<open>NewReader\<close> and
  \<open>NewWriter\<close> and no operation changes it.
\<close>

theorem C7_positional_unsupported:
  "(ReaderAt r = None \<longrightarrow> br_srcAt (NewReader r rcbs) = None) \<and>
   (br_srcAt br = None \<longrightarrow>
      ReadAt br n off = (([], Some (errorString ''ReadAt not supported'')), br)) \<and>
   br_srcAt (snd (Read br n)) = br_srcAt br \<and>
   br_srcAt (snd (ReadAt br n off)) = br_srcAt br \<and>
   (WriterAt w = None \<longrightarrow> bw_dstAt (NewWriter w wcbs) = None) \<and>
   (bw_dstAt bw = None \<longrightarrow>
      WriteAt bw p off = ((0, Some (errorString ''WriteAt not supported'')), bw)) \<and>
   bw_dstAt (snd (Write bw p)) = bw_dstAt bw \<and>
   bw_dstAt (snd (WriteAt bw p off)) = bw_dstAt bw \<and>
   bw_dstAt (snd (Flush bw)) = bw_dstAt bw \<and>
   bw_dstAt (snd (Close bw)) = bw_dstAt bw"
  by (simp add: NewReader_def NewWriter_def ReadAt_unsupported WriteAt_unsupported
      srcAt_Read srcAt_ReadAt dstAt_Write dstAt_WriteAt dstAt_Flush dstAt_Close)

theorem C7_witness:
  "br_srcAt (hello_reader [recorder ''test'']) = None \<and>
   ReadAt (hello_reader [recorder ''test'']) 5 0 =
     (([], Some (errorString ''ReadAt not supported'')), hello_reader [recorder ''test'']) \<and>
   bw_dstAt (plain_writer [recorder ''test'']) = None \<and>
   WriteAt (plain_writer [recorder ''test'']) hello 0 =
     ((0, Some (errorString ''WriteAt not supported'')), plain_writer [recorder ''test''])"
  using C7_positional_unsupported
    [where r = "scriptReader [(hello, None)]" and rcbs = "[recorder ''test'']"
       and br = "hello_reader [recorder ''test'']"
       and w = "scriptWriter [] None None" and wcbs = "[recorder ''test'']"
       and bw = "plain_writer [recorder ''test'']" and n = 5 and off = 0 and p = hello]
  by (simp add: hello_reader_def plain_writer_def scriptReader_def scriptWriter_def)

section \<open>Faults of observers\<close>



section \<open>The wrapping functions and the hash observer\<close>

text \<open>
  C5: with no observers \<open>Reader\<close> and \<open>Writer\<close> return the stream they were given, not an
  engine; with at least one observer they return a new engine whose stream is the given
  one and whose observers are the given ones, in the same order.
\<close>

theorem C5_facade_identity:
  "Reader r [] = PlainReader r \<and>
   Writer w [] = PlainWriter w \<and>
   (rcbs \<noteq> [] \<longrightarrow>
      Reader r rcbs = EngineReader (NewReader r rcbs) \<and>
      br_src (NewReader r rcbs) = r \<and> br_callbacks (NewReader r rcbs) = rcbs \<and>
      br_err (NewReader r rcbs) = None) \<and>
   (wcbs \<noteq> [] \<longrightarrow>
      Writer w wcbs = EngineWriter (NewWriter w wcbs) \<and>
      bw_dst (NewWriter w wcbs) = w \<and> bw_callbacks (NewWriter w wcbs) = wcbs \<and>
      bw_err (NewWriter w wcbs) = None \<and> \<not> bw_closed (NewWriter w wcbs))"
  by (simp add: Reader_def Writer_def NewReader_def NewWriter_def)

theorem C5_witness:
  "Reader (scriptReader [(hello, None)]) [recorder ''test''] =
     EngineReader (hello_reader [recorder ''test'']) \<and>
   br_src (hello_reader [recorder ''test'']) = scriptReader [(hello, None)] \<and>
   Writer (scriptWriter [] None None) [recorder ''test''] =
     EngineWriter (plain_writer [recorder ''test'']) \<and>
   bw_dst (plain_writer [recorder ''test'']) = scriptWriter [] None None"
  using C5_facade_identity
    [where r = "scriptReader [(hello, None)]" and rcbs = "[recorder ''test'']"
       and w = "scriptWriter [] None None" and wcbs = "[recorder ''test'']"]
  unfolding hello_reader_def plain_writer_def by blast

lemma HashCallback_feed_name: "hc_name (HashCallback_feed hc chunks) = hc_name hc"
  by (induction chunks arbitrary: hc) (simp_all add: HashCallback_OnData_def)

lemma HashCallback_feed_alg:
  "h_alg (hc_h (HashCallback_feed hc chunks)) = h_alg (hc_h hc)"
  by (induction chunks arbitrary: hc) (simp_all add: HashCallback_OnData_def hash_Write_def)

lemma HashCallback_feed_written:
  "h_written (hc_h (HashCallback_feed hc chunks)) = h_written (hc_h hc) @ concat chunks"
  by (induction chunks arbitrary: hc) (simp_all add: HashCallback_OnData_def hash_Write_def)

text \<open>
  C9: for an algorithm name other than "md5", "sha1", "sha256" and "sha512",
  \<open>NewHashCallback\<close> returns an observer (its type has no error) named "sha256" whose
  hash is a SHA-256; after any chunks its name is still "sha256" and its result is the
  SHA-256 digest of their concatenation; its \<open>OnData\<close> never returns an error.
\<close>

theorem C9_unknown_algorithm_is_sha256:
  assumes "algorithm \<notin> {''md5'', ''sha1'', ''sha256'', ''sha512''}"
  shows "HashCallback_Name (NewHashCallback algorithm) = ''sha256'' \<and>
         hc_h (NewHashCallback algorithm) = sha256_New \<and>
         HashCallback_Name (HashCallback_feed (NewHashCallback algorithm) chunks) = ''sha256'' \<and>
         HashCallback_Result digest (HashCallback_feed (NewHashCallback algorithm) chunks) =
           AnyBytes (digest SHA256 (concat chunks)) \<and>
         fst (HashCallback_OnData hc chunk) = None"
proof -
  have n: "NewHashCallback algorithm = \<lparr>hc_name = ''sha256'', hc_h = sha256_New\<rparr>"
    using assms by (simp add: NewHashCallback_def)
  show ?thesis
    unfolding n
    by (simp add: HashCallback_Name_def HashCallback_Result_def hash_Sum_def
        HashCallback_feed_name HashCallback_feed_alg HashCallback_feed_written
        sha256_New_def HashCallback_OnData_def)
qed

theorem C9_witness:
  "HashCallback_Name (NewHashCallback ''unknown'') = ''sha256'' \<and>
   HashCallback_Result tag_digest (HashCallback_feed (NewHashCallback ''unknown'') [hi, hello]) =
     AnyBytes (3 # hi @ hello)"
  using C9_unknown_algorithm_is_sha256 [where algorithm = "''unknown''" and chunks = "[hi, hello]"
      and digest = tag_digest and hc = "NewHashCallback ''unknown''" and chunk = hi]
  by simp

section \<open>Closing the write engine\<close>

lemma closed_Write: "bw_closed (snd (Write bw p)) = bw_closed bw"
  by (auto simp: Write_def bw_after_transfer_def BufferedWriter_dispatch_def
      split: option.splits prod.splits)

lemma closed_WriteAt: "bw_closed (snd (WriteAt bw p off)) = bw_closed bw"
  by (auto simp: WriteAt_def bw_after_transfer_def BufferedWriter_dispatch_def
      split: option.splits prod.splits)

lemma closed_Flush: "bw_closed (snd (Flush bw)) = bw_closed bw"
  by (auto simp: Flush_def split: option.splits prod.splits)

lemma Close_closed: "bw_closed bw \<Longrightarrow> Close bw = (None, bw)"
  by (simp add: Close_def)

lemma Close_sets_closed: "bw_closed (snd (Close bw))"
  using closed_Flush [of "bw\<lparr>bw_closed := True\<rparr>"]
  by (auto simp: Close_def split: option.splits prod.splits)

lemma Close_sticky:
  "\<not> bw_closed bw \<Longrightarrow> bw_err bw = Some e \<Longrightarrow> Close bw = (Some e, bw\<lparr>bw_closed := True\<rparr>)"
  by (simp add: Close_def Flush_def)

lemma Close_flush_fails:
  "\<not> bw_closed bw \<Longrightarrow> bw_err bw = None \<Longrightarrow>
   buf_Flush (bw_dst bw) (w_state (bw_dst bw)) = (Some e, s1) \<Longrightarrow>
     Close bw = (Some e, bw\<lparr>bw_dst := (bw_dst bw)\<lparr>w_state := s1\<rparr>, bw_err := Some e,
                            bw_closed := True, bw_trace := bw_trace bw @ [Ev_buf_Flush]\<rparr>)"
  by (simp add: Close_def Flush_def)

lemma Close_no_closer:
  "\<not> bw_closed bw \<Longrightarrow> bw_err bw = None \<Longrightarrow>
   buf_Flush (bw_dst bw) (w_state (bw_dst bw)) = (None, s1) \<Longrightarrow> Closer (bw_dst bw) = None \<Longrightarrow>
     Close bw = (None, bw\<lparr>bw_dst := (bw_dst bw)\<lparr>w_state := s1\<rparr>,
                         bw_closed := True, bw_trace := bw_trace bw @ [Ev_buf_Flush]\<rparr>)"
  by (simp add: Close_def Flush_def)

lemma Close_closer:
  "\<not> bw_closed bw \<Longrightarrow> bw_err bw = None \<Longrightarrow>
   buf_Flush (bw_dst bw) (w_state (bw_dst bw)) = (None, s1) \<Longrightarrow>
   Closer (bw_dst bw) = Some c \<Longrightarrow> c s1 = (cerr, s2) \<Longrightarrow>
     Close bw = (cerr, bw\<lparr>bw_dst := (bw_dst bw)\<lparr>w_state := s2\<rparr>,
                         bw_closed := True, bw_trace := bw_trace bw @ [Ev_buf_Flush, Ev_Close]\<rparr>)"
  by (simp add: Close_def Flush_def)

text \<open>
  C6: a \<open>Close\<close> on an engine that is already closed returns no error and changes
  nothing; every \<open>Close\<close> leaves the engine closed, whatever it returned, so a second
  \<open>Close\<close> is such a call; \<open>Write\<close>, \<open>WriteAt\<close> and \<open>Flush\<close> never reopen it.  The first
  \<open>Close\<close> flushes.  When the flush fails (the buffered flush returns an error, or the
  sticky error is already set and is returned without a flush), \<open>Close\<close> returns that
  error and the sink is not closed.  When the flush succeeds, the sink is closed if it
  is an \<open>io.Closer\<close>, and \<open>Close\<close> returns the error of that close; otherwise it
  returns no error.
\<close>

theorem C6_close_once:
  "(bw_closed bw \<longrightarrow> Close bw = (None, bw)) \<and>
   bw_closed (snd (Close bw)) \<and>
   Close (snd (Close bw)) = (None, snd (Close bw)) \<and>
   bw_closed (snd (Write bw p)) = bw_closed bw \<and>
   bw_closed (snd (WriteAt bw p off)) = bw_closed bw \<and>
   bw_closed (snd (Flush bw)) = bw_closed bw \<and>
   (\<not> bw_closed bw \<and> bw_err bw = Some e \<longrightarrow>
      Close bw = (Some e, bw\<lparr>bw_closed := True\<rparr>)) \<and>
   (\<not> bw_closed bw \<and> bw_err bw = None \<and>
    buf_Flush (bw_dst bw) (w_state (bw_dst bw)) = (Some e, s1) \<longrightarrow>
      Close bw = (Some e, bw\<lparr>bw_dst := (bw_dst bw)\<lparr>w_state := s1\<rparr>, bw_err := Some e,
                             bw_closed := True, bw_trace := bw_trace bw @ [Ev_buf_Flush]\<rparr>)) \<and>
   (\<not> bw_closed bw \<and> bw_err bw = None \<and>
    buf_Flush (bw_dst bw) (w_state (bw_dst bw)) = (None, s1) \<and> Closer (bw_dst bw) = None \<longrightarrow>
      Close bw = (None, bw\<lparr>bw_dst := (bw_dst bw)\<lparr>w_state := s1\<rparr>,
                          bw_closed := True, bw_trace := bw_trace bw @ [Ev_buf_Flush]\<rparr>)) \<and>
   (\<not> bw_closed bw \<and> bw_err bw = None \<and>
    buf_Flush (bw_dst bw) (w_state (bw_dst bw)) = (None, s1) \<and>
    Closer (bw_dst bw) = Some c \<and> c s1 = (cerr, s2) \<longrightarrow>
      Close bw = (cerr, bw\<lparr>bw_dst := (bw_dst bw)\<lparr>w_state := s2\<rparr>, bw_closed := True,
                          bw_trace := bw_trace bw @ [Ev_buf_Flush, Ev_Close]\<rparr>))"
proof -
  have twice: "Close (snd (Close bw)) = (None, snd (Close bw))"
    using Close_closed [OF Close_sets_closed [of bw]] .
  show ?thesis
    using twice Close_closed [of bw] Close_sets_closed [of bw] closed_Write [of bw p]
      closed_WriteAt [of bw p off] closed_Flush [of bw] Close_sticky [of bw e]
      Close_flush_fails [of bw e s1] Close_no_closer [of bw s1]
      Close_closer [of bw s1 c cerr s2]
    by blast
qed

theorem C6_witness:
  "fst (Close (closing_writer None (Some (errorString ''close error'')))) =
     Some (errorString ''close error'') \<and>
   bw_trace (snd (Close (closing_writer None (Some (errorString ''close error''))))) =
     [Ev_buf_Flush, Ev_Close] \<and>
   fst (Close (snd (Close (closing_writer None (Some (errorString ''close error'')))))) = None \<and>
   bw_trace (snd (Close (snd (Close (closing_writer None (Some (errorString ''close error''))))))) =
     [Ev_buf_Flush, Ev_Close] \<and>
   fst (Close (closing_writer (Some (errorString ''flush error'')) None)) =
     Some (errorString ''flush error'') \<and>
   bw_trace (snd (Close (closing_writer (Some (errorString ''flush error'')) None))) =
     [Ev_buf_Flush] \<and>
   fst (Close (snd (Close (closing_writer (Some (errorString ''flush error'')) None)))) = None"
proof -
  let ?a = "closing_writer None (Some (errorString ''close error''))"
  let ?b = "closing_writer (Some (errorString ''flush error'')) None"
  have a: "Close ?a = (Some (errorString ''close error''),
             ?a\<lparr>bw_dst := (bw_dst ?a)\<lparr>w_state := []\<rparr>, bw_closed := True,
                 bw_trace := bw_trace ?a @ [Ev_buf_Flush, Ev_Close]\<rparr>)"
    using C6_close_once [where bw = ?a and ?s1.0 = "[]" and ?s2.0 = "[]"
        and c = "\<lambda>s. (Some (errorString ''close error''), s)"
        and cerr = "Some (errorString ''close error'')"]
    by (simp add: closing_writer_def NewWriter_def scriptWriter_def)
  have b: "Close ?b = (Some (errorString ''flush error''),
             ?b\<lparr>bw_dst := (bw_dst ?b)\<lparr>w_state := []\<rparr>,
                 bw_err := Some (errorString ''flush error''),
                 bw_closed := True, bw_trace := bw_trace ?b @ [Ev_buf_Flush]\<rparr>)"
    using C6_close_once [where bw = ?b and ?s1.0 = "[]" and e = "errorString ''flush error''"]
    by (simp add: closing_writer_def NewWriter_def scriptWriter_def)
  have a2: "Close (snd (Close ?a)) = (None, snd (Close ?a))"
    using C6_close_once [where bw = ?a] by blast
  have b2: "Close (snd (Close ?b)) = (None, snd (Close ?b))"
    using C6_close_once [where bw = ?b] by blast
  show ?thesis
    unfolding a2 b2 unfolding a b
    by (simp add: closing_writer_def NewWriter_def)
qed

section \<open>The results snapshot\<close>

lemma Results_loop_key:
  "Results_loop cbs out k =
     (case filter (\<lambda>cb. Name cb = k) cbs of
        [] \<Rightarrow> out k
      | c # cs \<Rightarrow> Some (Result (last (c # cs))))"
proof (induction cbs arbitrary: out)
  case Nil
  show ?case by simp
next
  case (Cons cb cbs)
  have ih: "Results_loop cbs (out(Name cb \<mapsto> Result cb)) k =
              (case filter (\<lambda>cb. Name cb = k) cbs of
                 [] \<Rightarrow> (out(Name cb \<mapsto> Result cb)) k
               | c # cs \<Rightarrow> Some (Result (last (c # cs))))"
    by (rule Cons.IH)
  show ?case
    using ih by (auto split: list.splits)
qed

lemma Name_OnData: "Name (snd (OnData cb chunk)) = Name cb"
  by (cases cb) (simp_all split: prod.splits)

lemma tee_OnData_is_tee: "\<exists>t'. snd (OnData (TeeWriter t) chunk) = TeeWriter t'"
  by (simp split: prod.splits)

lemma map_Name_after_OnData: "map Name (after_OnData m chunk cbs) = map Name cbs"
proof -
  have "map Name (after_OnData m chunk cbs) = map Name (take m cbs) @ map Name (drop m cbs)"
    by (simp add: after_OnData_def Name_OnData comp_def)
  then show ?thesis by (simp flip: map_append)
qed

lemma after_OnData_tee:
  fixes cbs :: "('w, 'c) Callback list"
  shows "\<exists>t' cbs'. after_OnData m chunk (TeeWriter t # cbs) = TeeWriter t' # cbs' \<and>
                   map Name cbs' = map Name cbs"
proof (cases m)
  case 0
  then show ?thesis by (simp add: after_OnData_def)
next
  case (Suc m')
  obtain t' where t': "snd (OnData (TeeWriter t :: ('w, 'c) Callback) chunk) = TeeWriter t'"
    using tee_OnData_is_tee by blast
  have "after_OnData m chunk (TeeWriter t # cbs) = TeeWriter t' # after_OnData m' chunk cbs"
    using Suc t' by (simp add: after_OnData_def del: OnData.simps)
  then show ?thesis using map_Name_after_OnData by blast
qed

lemma callbacks_Read:
  "\<exists>m chunk. br_callbacks (snd (Read br n)) = after_OnData m chunk (br_callbacks br)"
proof (cases "br_err br")
  case (Some e)
  have "br_callbacks (snd (Read br n)) = after_OnData 0 [] (br_callbacks br)"
    using Some by (simp add: Read_sticky after_OnData_def)
  then show ?thesis by blast
next
  case None
  obtain chunk e s' where b: "buf_Read (br_src br) n (r_state (br_src br)) = ((chunk, e), s')"
    by (cases "buf_Read (br_src br) n (r_state (br_src br))") auto
  show ?thesis
  proof (cases "chunk = []")
    case True
    have "br_callbacks (snd (Read br n)) = after_OnData 0 [] (br_callbacks br)"
      using Read_empty [OF None b [unfolded True]] by (simp add: after_OnData_def)
    then show ?thesis by blast
  next
    case False
    have "br_callbacks (snd (Read br n)) =
            after_OnData (invoked (br_callbacks br) chunk) chunk (br_callbacks br)"
      using Read_transfer [OF None b False] by simp
    then show ?thesis by blast
  qed
qed

lemma callbacks_ReadAt:
  "\<exists>m chunk. br_callbacks (snd (ReadAt br n off)) = after_OnData m chunk (br_callbacks br)"
proof (cases "br_srcAt br")
  case None
  have "br_callbacks (snd (ReadAt br n off)) = after_OnData 0 [] (br_callbacks br)"
    using None by (simp add: ReadAt_unsupported after_OnData_def)
  then show ?thesis by blast
next
  case (Some readAt)
  show ?thesis
  proof (cases "br_err br")
    case (Some e)
    have "br_callbacks (snd (ReadAt br n off)) = after_OnData 0 [] (br_callbacks br)"
      using Some \<open>br_srcAt br = Some readAt\<close> by (simp add: ReadAt_sticky after_OnData_def)
    then show ?thesis by blast
  next
    case None
    obtain chunk e s' where b: "readAt n off (r_state (br_src br)) = ((chunk, e), s')"
      by (cases "readAt n off (r_state (br_src br))") auto
    show ?thesis
    proof (cases "chunk = []")
      case True
      have "br_callbacks (snd (ReadAt br n off)) = after_OnData 0 [] (br_callbacks br)"
        using ReadAt_empty [OF \<open>br_srcAt br = Some readAt\<close> None b [unfolded True]]
        by (simp add: after_OnData_def)
      then show ?thesis by blast
    next
      case False
      have "br_callbacks (snd (ReadAt br n off)) =
              after_OnData (invoked (br_callbacks br) chunk) chunk (br_callbacks br)"
        using ReadAt_transfer [OF \<open>br_srcAt br = Some readAt\<close> None b False] by simp
      then show ?thesis by blast
    qed
  qed
qed

text \<open>
  C10: the mirror observer is named "_tee_writer" and its result is nil.  \<open>TeeReader\<close>
  returns an engine whose first observer is the mirror, and every \<open>Read\<close> and \<open>ReadAt\<close>
  keeps the mirror first and the names of the others as they were.  In the results of
  such an engine the key "_tee_writer" is always present; it is mapped to nil when no
  observer of the caller has that name, and to the result of the last observer of the
  caller that has that name otherwise (the later write to the map survives).
\<close>

theorem C10_tee_writer_key:
  "Name (TeeWriter t) = ''_tee_writer'' \<and>
   Result (TeeWriter t) = AnyNil \<and>
   TeeReader r w cbs =
     EngineReader (NewReader r (TeeWriter \<lparr>tee_w = w, tee_errPtr = None\<rparr> # cbs)) \<and>
   (br_callbacks br = TeeWriter t # cbs \<longrightarrow>
      Results br ''_tee_writer'' =
        Some (case filter (\<lambda>cb. Name cb = ''_tee_writer'') cbs of
                [] \<Rightarrow> AnyNil
              | c # cs \<Rightarrow> Result (last (c # cs))) \<and>
      (\<exists>t' cbs'. br_callbacks (snd (Read br n)) = TeeWriter t' # cbs' \<and>
                 map Name cbs' = map Name cbs) \<and>
      (\<exists>t' cbs'. br_callbacks (snd (ReadAt br n off)) = TeeWriter t' # cbs' \<and>
                 map Name cbs' = map Name cbs))"
proof -
  have tee: "TeeReader r w cbs =
               EngineReader (NewReader r (TeeWriter \<lparr>tee_w = w, tee_errPtr = None\<rparr> # cbs))"
    by (simp add: TeeReader_def Reader_def)
  have res: "Results br ''_tee_writer'' =
               Some (case filter (\<lambda>cb. Name cb = ''_tee_writer'') cbs of
                       [] \<Rightarrow> AnyNil
                     | c # cs \<Rightarrow> Result (last (c # cs)))"
    if "br_callbacks br = TeeWriter t # cbs"
    using that by (simp add: Results_def Results_loop_key split: list.splits)
  have rd: "\<exists>t' cbs'. br_callbacks (snd (Read br n)) = TeeWriter t' # cbs' \<and>
                      map Name cbs' = map Name cbs"
    if "br_callbacks br = TeeWriter t # cbs"
    using that callbacks_Read [of br n] after_OnData_tee by metis
  have rda: "\<exists>t' cbs'. br_callbacks (snd (ReadAt br n off)) = TeeWriter t' # cbs' \<and>
                       map Name cbs' = map Name cbs"
    if "br_callbacks br = TeeWriter t # cbs"
    using that callbacks_ReadAt [of br n off] after_OnData_tee by metis
  show ?thesis
    using tee res rd rda by simp
qed

theorem C10_witness:
  "TeeReader (scriptReader [(hello, None), (hi, None)]) (scriptWriter [] None None)
     [recorder ''size''] =
     EngineReader (tee_reader (scriptWriter [] None None) [recorder ''size'']) \<and>
   Results (tee_reader (scriptWriter [] None None) [recorder ''size'']) ''_tee_writer'' =
     Some AnyNil \<and>
   Results (tee_reader (scriptWriter [] None None) [recorder ''_tee_writer''])
     ''_tee_writer'' = Some (AnyInt 0)"
  using C10_tee_writer_key
      [where r = "scriptReader [(hello, None), (hi, None)]" and w = "scriptWriter [] None None"
         and cbs = "[recorder ''size'']"
         and t = "\<lparr>tee_w = scriptWriter [] None None, tee_errPtr = None\<rparr>"
         and br = "tee_reader (scriptWriter [] None None) [recorder ''size'']"
         and n = 5 and off = 0]
    C10_tee_writer_key
      [where r = "scriptReader [(hello, None), (hi, None)]" and w = "scriptWriter [] None None"
         and cbs = "[recorder ''_tee_writer'']" and n = 5 and off = 0
         and t = "\<lparr>tee_w = scriptWriter [] None None, tee_errPtr = None\<rparr>"
         and br = "tee_reader (scriptWriter [] None None) [recorder ''_tee_writer'']"]
  by (simp add: tee_reader_def NewReader_def recorder_def testCallback_def)

section \<open>Dispatch of a transferred chunk\<close>

text \<open>
  C2: let \<open>m\<close> be the number of observers a dispatch of \<open>chunk\<close> reaches: all \<open>N\<close> when
  every observer accepts the chunk, and \<open>k + 1\<close> when observer \<open>k\<close> is the first that
  returns an error or panics.  A dispatch calls \<open>OnData\<close> of the observers
  \<open>0, \<dots>, m - 1\<close>, once each, in this order, with the same chunk; these observers take
  the step of their \<open>OnData\<close> and the observers from \<open>m\<close> on are unchanged and not
  called; the dispatch returns no error exactly when every observer accepts.  A \<open>Read\<close>,
  \<open>ReadAt\<close>, \<open>Write\<close> or \<open>WriteAt\<close> that finds no sticky error and transfers a chunk that
  is not empty performs its one read or write and then exactly this dispatch of the
  transferred bytes.
\<close>

theorem C2_dispatch_once_in_order:
  fixes cbs :: "('w, 'c) Callback list"
    and br :: "('a, 'w, 'c) BufferedReader"
    and bw :: "('b, 'w, 'c) BufferedWriter"
  assumes "m = invoked cbs chunk"
  shows "m \<le> length cbs \<and>
         ((\<forall>cb\<in>set cbs. accepts cb chunk) \<longrightarrow> m = length cbs) \<and>
         (\<forall>k<length cbs. \<not> accepts (cbs ! k) chunk \<and> (\<forall>j<k. accepts (cbs ! j) chunk)
            \<longrightarrow> m = Suc k) \<and>
         dispatch cbs chunk tr =
           (dispatch_err cbs chunk,
            map (\<lambda>cb. snd (OnData cb chunk)) (take m cbs) @ drop m cbs,
            tr @ map (\<lambda>k. Ev_OnData k chunk) [0..<m]) \<and>
         ((dispatch_err cbs chunk = None) = (\<forall>cb\<in>set cbs. accepts cb chunk)) \<and>
         (br_callbacks br = cbs \<and> br_err br = None \<and> chunk \<noteq> [] \<and>
          buf_Read (br_src br) n (r_state (br_src br)) = ((chunk, e), s) \<longrightarrow>
            fst (fst (Read br n)) = chunk \<and>
            br_trace (snd (Read br n)) =
              br_trace br @ Ev_buf_Read n # map (\<lambda>k. Ev_OnData k chunk) [0..<m] \<and>
            br_callbacks (snd (Read br n)) =
              map (\<lambda>cb. snd (OnData cb chunk)) (take m cbs) @ drop m cbs) \<and>
         (br_callbacks br = cbs \<and> br_err br = None \<and> chunk \<noteq> [] \<and>
          br_srcAt br = Some readAt \<and> readAt n off (r_state (br_src br)) = ((chunk, e), s) \<longrightarrow>
            fst (fst (ReadAt br n off)) = chunk \<and>
            br_trace (snd (ReadAt br n off)) =
              br_trace br @ Ev_ReadAt n off # map (\<lambda>k. Ev_OnData k chunk) [0..<m] \<and>
            br_callbacks (snd (ReadAt br n off)) =
              map (\<lambda>cb. snd (OnData cb chunk)) (take m cbs) @ drop m cbs) \<and>
         (bw_callbacks bw = cbs \<and> bw_err bw = None \<and> 0 < nw \<and> take nw p = chunk \<and>
          buf_Write (bw_dst bw) p (w_state (bw_dst bw)) = ((nw, e), sw) \<longrightarrow>
            fst (fst (Write bw p)) = nw \<and>
            bw_trace (snd (Write bw p)) =
              bw_trace bw @ Ev_buf_Write p # map (\<lambda>k. Ev_OnData k chunk) [0..<m] \<and>
            bw_callbacks (snd (Write bw p)) =
              map (\<lambda>cb. snd (OnData cb chunk)) (take m cbs) @ drop m cbs) \<and>
         (bw_callbacks bw = cbs \<and> bw_err bw = None \<and> 0 < nw \<and> take nw p = chunk \<and>
          bw_dstAt bw = Some writeAt \<and> writeAt p off (w_state (bw_dst bw)) = ((nw, e), sw) \<longrightarrow>
            fst (fst (WriteAt bw p off)) = nw \<and>
            bw_trace (snd (WriteAt bw p off)) =
              bw_trace bw @ Ev_WriteAt p off # map (\<lambda>k. Ev_OnData k chunk) [0..<m] \<and>
            bw_callbacks (snd (WriteAt bw p off)) =
              map (\<lambda>cb. snd (OnData cb chunk)) (take m cbs) @ drop m cbs)"
proof -
  have c1: "m \<le> length cbs"
    using assms by (simp add: invoked_le)
  have c2: "(\<forall>cb\<in>set cbs. accepts cb chunk) \<longrightarrow> m = length cbs"
    using assms by (simp add: invoked_all)
  have c3: "\<forall>k<length cbs. \<not> accepts (cbs ! k) chunk \<and> (\<forall>j<k. accepts (cbs ! j) chunk)
              \<longrightarrow> m = Suc k"
    using assms invoked_first [of _ cbs chunk] by blast
  have c4: "dispatch cbs chunk tr =
              (dispatch_err cbs chunk,
               map (\<lambda>cb. snd (OnData cb chunk)) (take m cbs) @ drop m cbs,
               tr @ map (\<lambda>k. Ev_OnData k chunk) [0..<m])"
    using assms by (simp add: dispatch_eq after_OnData_def OnData_events_def)
  have c5: "(dispatch_err cbs chunk = None) = (\<forall>cb\<in>set cbs. accepts cb chunk)"
    by (rule dispatch_err_ok)
  have c6: "fst (fst (Read br n)) = chunk \<and>
            br_trace (snd (Read br n)) =
              br_trace br @ Ev_buf_Read n # map (\<lambda>k. Ev_OnData k chunk) [0..<m] \<and>
            br_callbacks (snd (Read br n)) =
              map (\<lambda>cb. snd (OnData cb chunk)) (take m cbs) @ drop m cbs"
    if h: "br_callbacks br = cbs \<and> br_err br = None \<and> chunk \<noteq> [] \<and>
           buf_Read (br_src br) n (r_state (br_src br)) = ((chunk, e), s)"
  proof -
    have "br_err br = None" "buf_Read (br_src br) n (r_state (br_src br)) = ((chunk, e), s)"
      "chunk \<noteq> []" using h by simp_all
    from Read_transfer [OF this] show ?thesis
      using h assms by (simp add: after_OnData_def OnData_events_def)
  qed
  have c7: "fst (fst (ReadAt br n off)) = chunk \<and>
            br_trace (snd (ReadAt br n off)) =
              br_trace br @ Ev_ReadAt n off # map (\<lambda>k. Ev_OnData k chunk) [0..<m] \<and>
            br_callbacks (snd (ReadAt br n off)) =
              map (\<lambda>cb. snd (OnData cb chunk)) (take m cbs) @ drop m cbs"
    if h: "br_callbacks br = cbs \<and> br_err br = None \<and> chunk \<noteq> [] \<and>
           br_srcAt br = Some readAt \<and> readAt n off (r_state (br_src br)) = ((chunk, e), s)"
  proof -
    have "br_srcAt br = Some readAt" "br_err br = None"
      "readAt n off (r_state (br_src br)) = ((chunk, e), s)" "chunk \<noteq> []"
      using h by simp_all
    from ReadAt_transfer [OF this] show ?thesis
      using h assms by (simp add: after_OnData_def OnData_events_def)
  qed
  have c8: "fst (fst (Write bw p)) = nw \<and>
            bw_trace (snd (Write bw p)) =
              bw_trace bw @ Ev_buf_Write p # map (\<lambda>k. Ev_OnData k chunk) [0..<m] \<and>
            bw_callbacks (snd (Write bw p)) =
              map (\<lambda>cb. snd (OnData cb chunk)) (take m cbs) @ drop m cbs"
    if h: "bw_callbacks bw = cbs \<and> bw_err bw = None \<and> 0 < nw \<and> take nw p = chunk \<and>
           buf_Write (bw_dst bw) p (w_state (bw_dst bw)) = ((nw, e), sw)"
  proof -
    have "bw_err bw = None" "buf_Write (bw_dst bw) p (w_state (bw_dst bw)) = ((nw, e), sw)"
      "0 < nw" using h by simp_all
    from Write_transfer [OF this] show ?thesis
      using h assms by (simp add: after_OnData_def OnData_events_def)
  qed
  have c9: "fst (fst (WriteAt bw p off)) = nw \<and>
            bw_trace (snd (WriteAt bw p off)) =
              bw_trace bw @ Ev_WriteAt p off # map (\<lambda>k. Ev_OnData k chunk) [0..<m] \<and>
            bw_callbacks (snd (WriteAt bw p off)) =
              map (\<lambda>cb. snd (OnData cb chunk)) (take m cbs) @ drop m cbs"
    if h: "bw_callbacks bw = cbs \<and> bw_err bw = None \<and> 0 < nw \<and> take nw p = chunk \<and>
           bw_dstAt bw = Some writeAt \<and> writeAt p off (w_state (bw_dst bw)) = ((nw, e), sw)"
  proof -
    have "bw_dstAt bw = Some writeAt" "bw_err bw = None"
      "writeAt p off (w_state (bw_dst bw)) = ((nw, e), sw)" "0 < nw"
      using h by simp_all
    from WriteAt_transfer [OF this] show ?thesis
      using h assms by (simp add: after_OnData_def OnData_events_def)
  qed
  show ?thesis
    apply (intro conjI)
            apply (rule c1)
           apply (rule c2)
          apply (rule c3)
         apply (rule c4)
        apply (rule c5)
       apply (rule impI, drule c6, simp)
      apply (rule impI, drule c7, simp)
     apply (rule impI, drule c8, simp)
    apply (rule impI, drule c9, simp)
    done
qed

theorem C2_witness:
  "invoked three_cbs hello = 2 \<and>
   dispatch three_cbs hello [] =
     (Some (errorString ''cb2 error''),
      [recorded ''cb1'' [hello], failing ''cb2'' ''cb2 error'', recorder ''cb3''],
      [Ev_OnData 0 hello, Ev_OnData 1 hello]) \<and>
   fst (fst (Read (hello_reader three_cbs) 5)) = hello \<and>
   br_trace (snd (Read (hello_reader three_cbs) 5)) =
     [Ev_buf_Read 5, Ev_OnData 0 hello, Ev_OnData 1 hello] \<and>
   br_callbacks (snd (Read (hello_reader three_cbs) 5)) =
     [recorded ''cb1'' [hello], failing ''cb2'' ''cb2 error'', recorder ''cb3''] \<and>
   bw_trace (snd (Write (plain_writer three_cbs) hello)) =
     [Ev_buf_Write hello, Ev_OnData 0 hello, Ev_OnData 1 hello] \<and>
   bw_callbacks (snd (Write (plain_writer three_cbs) hello)) =
     [recorded ''cb1'' [hello], failing ''cb2'' ''cb2 error'', recorder ''cb3''] \<and>
   br_trace (snd (ReadAt (at_reader three_cbs) 5 0)) =
     [Ev_ReadAt 5 0, Ev_OnData 0 hello, Ev_OnData 1 hello] \<and>
   bw_trace (snd (WriteAt (at_writer three_cbs) hello 0)) =
     [Ev_WriteAt hello 0, Ev_OnData 0 hello, Ev_OnData 1 hello]"
proof -
  have m: "Suc (Suc 0) = invoked three_cbs hello"
    by (simp add: invoked_def accepts_def three_cbs_def recorder_def failing_def
        testCallback_def)
  have de: "dispatch_err three_cbs hello = Some (errorString ''cb2 error'')"
    by (simp add: dispatch_err_def dispatch_def three_cbs_def recorder_def failing_def
        testCallback_def)
  have st: "map (\<lambda>cb. snd (OnData cb hello)) (take (Suc (Suc 0)) three_cbs) @
              drop (Suc (Suc 0)) three_cbs =
            [recorded ''cb1'' [hello], failing ''cb2'' ''cb2 error'', recorder ''cb3'']"
    by (simp add: three_cbs_def recorder_def failing_def recorded_def testCallback_def)
  have ev: "map (\<lambda>k. Ev_OnData k hello) [0..<Suc (Suc 0)] = [Ev_OnData 0 hello, Ev_OnData 1 hello]"
    by (simp add: upt_rec)
  have r: "br_callbacks (hello_reader three_cbs) = three_cbs \<and>
           br_err (hello_reader three_cbs) = None \<and> hello \<noteq> [] \<and>
           br_trace (hello_reader three_cbs) = [] \<and>
           buf_Read (br_src (hello_reader three_cbs)) 5
             (r_state (br_src (hello_reader three_cbs))) = ((hello, None), [])"
    by (simp add: hello_reader_def NewReader_def scriptReader_def hello_def)
  have w: "bw_callbacks (plain_writer three_cbs) = three_cbs \<and>
           bw_err (plain_writer three_cbs) = None \<and> 0 < (5::nat) \<and> take 5 hello = hello \<and>
           bw_trace (plain_writer three_cbs) = [] \<and>
           buf_Write (bw_dst (plain_writer three_cbs)) hello
             (w_state (bw_dst (plain_writer three_cbs))) = ((5, None), [])"
    by (simp add: plain_writer_def NewWriter_def scriptWriter_def hello_def)
  have ra: "br_callbacks (at_reader three_cbs) = three_cbs \<and>
            br_err (at_reader three_cbs) = None \<and> br_trace (at_reader three_cbs) = [] \<and>
            br_srcAt (at_reader three_cbs) = ReaderAt (mockReaderAt hello) \<and>
            ReaderAt (mockReaderAt hello) =
              Some (\<lambda>n off s.
                 if off \<ge> int (length s) then (([], Some EOF), s)
                 else ((take n (drop (nat off) s),
                        if length (drop (nat off) s) < n then Some EOF else None), s)) \<and>
            (if (0::int) \<ge> int (length (r_state (br_src (at_reader three_cbs))))
             then (([], Some EOF), r_state (br_src (at_reader three_cbs)))
             else ((take 5 (drop (nat 0) (r_state (br_src (at_reader three_cbs)))),
                    if length (drop (nat 0) (r_state (br_src (at_reader three_cbs)))) < 5
                    then Some EOF else None), r_state (br_src (at_reader three_cbs)))) =
              ((hello, None), hello)"
    by (simp add: at_reader_def NewReader_def mockReaderAt_def hello_def)
  have wa: "bw_callbacks (at_writer three_cbs) = three_cbs \<and>
            bw_err (at_writer three_cbs) = None \<and> bw_trace (at_writer three_cbs) = [] \<and>
            bw_dstAt (at_writer three_cbs) =
              Some (\<lambda>p off s. ((length p, None), s @ [(off, p)])) \<and>
            w_state (bw_dst (at_writer three_cbs)) = [] \<and> length hello = 5"
    by (simp add: at_writer_def NewWriter_def mockWriter_def hello_def)
  have seq: "fst (fst (Read (hello_reader three_cbs) 5)) = hello \<and>
             br_trace (snd (Read (hello_reader three_cbs) 5)) =
               [Ev_buf_Read 5, Ev_OnData 0 hello, Ev_OnData 1 hello] \<and>
             br_callbacks (snd (Read (hello_reader three_cbs) 5)) =
               [recorded ''cb1'' [hello], failing ''cb2'' ''cb2 error'', recorder ''cb3''] \<and>
             bw_trace (snd (Write (plain_writer three_cbs) hello)) =
               [Ev_buf_Write hello, Ev_OnData 0 hello, Ev_OnData 1 hello] \<and>
             bw_callbacks (snd (Write (plain_writer three_cbs) hello)) =
               [recorded ''cb1'' [hello], failing ''cb2'' ''cb2 error'', recorder ''cb3''] \<and>
             dispatch three_cbs hello [] =
               (Some (errorString ''cb2 error''),
                [recorded ''cb1'' [hello], failing ''cb2'' ''cb2 error'', recorder ''cb3''],
                [Ev_OnData 0 hello, Ev_OnData 1 hello])"
    using C2_dispatch_once_in_order
      [OF m, where tr = "[]" and br = "hello_reader three_cbs" and n = 5 and e = None
         and s = "[]" and bw = "plain_writer three_cbs" and p = hello and nw = 5
         and sw = "[]" and off = 0
         and readAt = "\<lambda>n off s. (([], None), s)"
         and writeAt = "\<lambda>p off s. ((0, None), s)"]
    unfolding de st ev
    using r w by simp
  have pos: "br_trace (snd (ReadAt (at_reader three_cbs) 5 0)) =
               [Ev_ReadAt 5 0, Ev_OnData 0 hello, Ev_OnData 1 hello] \<and>
             bw_trace (snd (WriteAt (at_writer three_cbs) hello 0)) =
               [Ev_WriteAt hello 0, Ev_OnData 0 hello, Ev_OnData 1 hello]"
    using C2_dispatch_once_in_order
      [OF m, where tr = "[]" and br = "at_reader three_cbs" and n = 5 and e = None
         and s = hello and bw = "at_writer three_cbs" and p = hello and nw = 5
         and sw = "[(0, hello)]" and off = 0
         and readAt = "\<lambda>n off s.
                 if off \<ge> int (length s) then (([], Some EOF), s)
                 else ((take n (drop (nat off) s),
                        if length (drop (nat off) s) < n then Some EOF else None), s)"
         and writeAt = "\<lambda>p off s. ((length p, None), s @ [(off, p)])"]
    unfolding de st ev
    using ra wa r by simp
  show ?thesis
    using seq pos m by simp
qed

section \<open>The sticky error\<close>




section \<open>The tee mirror\<close>

lemma invoked_pos: "cbs \<noteq> [] \<Longrightarrow> 0 < invoked cbs chunk"
  by (cases cbs) (simp_all add: invoked_Cons)

lemma OnData_events_pos:
  "0 < m \<Longrightarrow> OnData_events m chunk = Ev_OnData 0 chunk # map (\<lambda>k. Ev_OnData k chunk) [1..<m]"
  by (simp add: OnData_events_def upt_conv_Cons)

lemma tee_OnData_fails:
  "tee_errPtr t = None \<Longrightarrow> Write_m (tee_w t) chunk (w_state (tee_w t)) = ((nw, Some e), sw) \<Longrightarrow>
     OnData (TeeWriter t) chunk =
       (Return (Some e), TeeWriter (t\<lparr>tee_w := (tee_w t)\<lparr>w_state := sw\<rparr>, tee_errPtr := Some e\<rparr>))"
  by (simp add: teeWriterCallback_OnData_def)

lemma tee_OnData_sticky:
  "tee_errPtr t = Some e \<Longrightarrow> OnData (TeeWriter t) chunk = (Return (Some e), TeeWriter t)"
  by (simp add: teeWriterCallback_OnData_def)

text \<open>
  C4 as stated fails.  A tee over a mirror sink whose write fails, with one recording
  observer of the caller: the \<open>Read\<close> that transfers "hello" returns the error of the
  mirror, the observer of the caller is not called (the trace holds only the call of
  observer 0, the mirror) and has recorded nothing; the next \<open>Read\<close> returns the same
  error without reading the remaining "hi", so the observer never sees a later chunk
  either.
\<close>

theorem C4_counterexample:
  "TeeReader (scriptReader [(hello, None), (hi, None)])
     (errorWriter (errorString ''write error'')) [recorder ''extra''] =
     EngineReader (tee_reader (errorWriter (errorString ''write error'')) [recorder ''extra'']) \<and>
   fst (Read (tee_reader (errorWriter (errorString ''write error'')) [recorder ''extra'']) 5) =
     (hello, Some (errorString ''write error'')) \<and>
   br_trace (snd (Read (tee_reader (errorWriter (errorString ''write error''))
                         [recorder ''extra'']) 5)) =
     [Ev_buf_Read 5, Ev_OnData 0 hello] \<and>
   br_callbacks (snd (Read (tee_reader (errorWriter (errorString ''write error''))
                             [recorder ''extra'']) 5)) ! 1 = recorder ''extra'' \<and>
   fst (Read (snd (Read (tee_reader (errorWriter (errorString ''write error''))
                          [recorder ''extra'']) 5)) 5) =
     ([], Some (errorString ''write error'')) \<and>
   br_trace (snd (Read (snd (Read (tee_reader (errorWriter (errorString ''write error''))
                                    [recorder ''extra'']) 5)) 5)) =
     [Ev_buf_Read 5, Ev_OnData 0 hello]"
  by (simp add: TeeReader_def Reader_def tee_reader_def errorWriter_def NewReader_def
      scriptReader_def scriptWriter_def Read_def br_after_transfer_def
      BufferedReader_dispatch_def dispatch_def teeWriterCallback_OnData_def
      recorder_def testCallback_def hello_def)

text \<open>
  C4 as amended: \<open>TeeReader\<close> puts the mirror first in the list of observers, so on every
  transferred chunk the mirror is called, and writes to its sink, before any other
  observer is called.  When that write fails, the mirror keeps the error, the dispatch
  stops there: the other observers are not called with that chunk and are unchanged,
  the \<open>Read\<close> returns the chunk and the error of the mirror, and the error becomes the
  sticky error of the engine, so that every later \<open>Read\<close> returns it without reading
  and without calling any observer.
\<close>

theorem C4_tee_mirror_first:
  fixes br :: "('a, 'w, 'c) BufferedReader"
  shows
  "TeeReader r w cbs =
     EngineReader (NewReader r (TeeWriter \<lparr>tee_w = w, tee_errPtr = None\<rparr> # cbs)) \<and>
   (br_callbacks br = TeeWriter t # cbs \<and> br_err br = None \<and> chunk \<noteq> [] \<and>
    buf_Read (br_src br) n (r_state (br_src br)) = ((chunk, e0), s) \<longrightarrow>
      br_trace (snd (Read br n)) =
        br_trace br @ Ev_buf_Read n # Ev_OnData 0 chunk #
          map (\<lambda>k. Ev_OnData k chunk) [1..<invoked (TeeWriter t # cbs) chunk]) \<and>
   (br_callbacks br = TeeWriter t # cbs \<and> br_err br = None \<and> chunk \<noteq> [] \<and>
    buf_Read (br_src br) n (r_state (br_src br)) = ((chunk, e0), s) \<and>
    tee_errPtr t = None \<and>
    Write_m (tee_w t) chunk (w_state (tee_w t)) = ((nw, Some e), sw) \<longrightarrow>
      fst (Read br n) = (chunk, Some e) \<and>
      br_trace (snd (Read br n)) = br_trace br @ [Ev_buf_Read n, Ev_OnData 0 chunk] \<and>
      br_callbacks (snd (Read br n)) =
        TeeWriter (t\<lparr>tee_w := (tee_w t)\<lparr>w_state := sw\<rparr>, tee_errPtr := Some e\<rparr>) # cbs \<and>
      br_err (snd (Read br n)) = Some e \<and>
      Read (snd (Read br n)) n2 = (([], Some e), snd (Read br n)))"
proof -
  have c1: "TeeReader r w cbs =
              EngineReader (NewReader r (TeeWriter \<lparr>tee_w = w, tee_errPtr = None\<rparr> # cbs))"
    by (simp add: TeeReader_def Reader_def)
  have c2: "br_trace (snd (Read br n)) =
              br_trace br @ Ev_buf_Read n # Ev_OnData 0 chunk #
                map (\<lambda>k. Ev_OnData k chunk) [1..<invoked (TeeWriter t # cbs) chunk]"
    if h: "br_callbacks br = TeeWriter t # cbs \<and> br_err br = None \<and> chunk \<noteq> [] \<and>
           buf_Read (br_src br) n (r_state (br_src br)) = ((chunk, e0), s)"
  proof -
    have "br_err br = None" "buf_Read (br_src br) n (r_state (br_src br)) = ((chunk, e0), s)"
      "chunk \<noteq> []" using h by simp_all
    from Read_transfer [OF this]
    have "br_trace (snd (Read br n)) =
            br_trace br @ Ev_buf_Read n # OnData_events (invoked (TeeWriter t # cbs) chunk) chunk"
      using h by simp
    moreover have "0 < invoked (TeeWriter t # cbs) chunk"
      by (rule invoked_pos) simp
    ultimately show ?thesis by (simp add: OnData_events_pos)
  qed
  have c3: "fst (Read br n) = (chunk, Some e) \<and>
            br_trace (snd (Read br n)) = br_trace br @ [Ev_buf_Read n, Ev_OnData 0 chunk] \<and>
            br_callbacks (snd (Read br n)) =
              TeeWriter (t\<lparr>tee_w := (tee_w t)\<lparr>w_state := sw\<rparr>, tee_errPtr := Some e\<rparr>) # cbs \<and>
            br_err (snd (Read br n)) = Some e \<and>
            Read (snd (Read br n)) n2 = (([], Some e), snd (Read br n))"
    if h: "br_callbacks br = TeeWriter t # cbs \<and> br_err br = None \<and> chunk \<noteq> [] \<and>
           buf_Read (br_src br) n (r_state (br_src br)) = ((chunk, e0), s) \<and>
           tee_errPtr t = None \<and>
           Write_m (tee_w t) chunk (w_state (tee_w t)) = ((nw, Some e), sw)"
  proof -
    have od: "OnData (TeeWriter t :: ('w, 'c) Callback) chunk =
                (Return (Some e),
                 TeeWriter (t\<lparr>tee_w := (tee_w t)\<lparr>w_state := sw\<rparr>, tee_errPtr := Some e\<rparr>))"
      by (rule tee_OnData_fails) (simp_all add: h)
    have na: "\<not> accepts (TeeWriter t :: ('w, 'c) Callback) chunk"
      using od by (simp add: accepts_def)
    have inv: "invoked (TeeWriter t # cbs) chunk = 1"
      using na by (simp add: invoked_Cons)
    have de: "dispatch_err (TeeWriter t # cbs) chunk = Some e"
      using dispatch_err_first [of 0 "TeeWriter t # cbs" chunk] na od by simp
    have "br_err br = None" "buf_Read (br_src br) n (r_state (br_src br)) = ((chunk, e0), s)"
      "chunk \<noteq> []" using h by simp_all
    from Read_transfer [OF this]
    have rd: "Read br n =
                ((chunk, Some e),
                 br\<lparr>br_src := (br_src br)\<lparr>r_state := s\<rparr>,
                    br_callbacks :=
                      TeeWriter (t\<lparr>tee_w := (tee_w t)\<lparr>w_state := sw\<rparr>, tee_errPtr := Some e\<rparr>) # cbs,
                    br_err := Some e,
                    br_trace := br_trace br @ [Ev_buf_Read n, Ev_OnData 0 chunk]\<rparr>)"
      using h inv de od by (simp add: after_OnData_def OnData_events_def del: OnData.simps)
    have st: "Read (snd (Read br n)) n2 = (([], Some e), snd (Read br n))"
      by (rule Read_sticky) (simp add: rd)
    show ?thesis using st by (simp add: rd)
  qed
  show ?thesis
    apply (intro conjI)
      apply (rule c1)
     apply (rule impI, drule c2, simp)
    apply (rule impI, drule c3, simp)
    done
qed

theorem C4_witness:
  "br_trace (snd (Read (tee_reader (scriptWriter [] None None) [recorder ''extra'']) 5)) =
     [Ev_buf_Read 5, Ev_OnData 0 hello, Ev_OnData 1 hello] \<and>
   fst (Read (tee_reader (errorWriter (errorString ''write error'')) [recorder ''extra'']) 5) =
     (hello, Some (errorString ''write error'')) \<and>
   br_callbacks (snd (Read (tee_reader (errorWriter (errorString ''write error''))
                             [recorder ''extra'']) 5)) =
     [TeeWriter \<lparr>tee_w = scriptWriter [] None None,
                tee_errPtr = Some (errorString ''write error'')\<rparr>,
      recorder ''extra''] \<and>
   Read (snd (Read (tee_reader (errorWriter (errorString ''write error''))
                     [recorder ''extra'']) 5)) 2 =
     (([], Some (errorString ''write error'')),
      snd (Read (tee_reader (errorWriter (errorString ''write error''))
                  [recorder ''extra'']) 5))"
proof -
  let ?e = "errorString ''write error''"
  let ?ok = "scriptWriter [] None None"
  let ?A = "tee_reader ?ok [recorder ''extra'']"
  let ?B = "tee_reader (errorWriter ?e) [recorder ''extra'']"
  have inv: "invoked [TeeWriter \<lparr>tee_w = ?ok, tee_errPtr = None\<rparr>, recorder ''extra''] hello =
               Suc (Suc 0)"
    by (simp add: invoked_def accepts_def teeWriterCallback_OnData_def scriptWriter_def
        recorder_def testCallback_def)
  have a: "br_callbacks ?A = [TeeWriter \<lparr>tee_w = ?ok, tee_errPtr = None\<rparr>, recorder ''extra''] \<and>
           br_err ?A = None \<and> hello \<noteq> [] \<and> br_trace ?A = [] \<and>
           buf_Read (br_src ?A) 5 (r_state (br_src ?A)) = ((hello, None), [(hi, None)])"
    by (simp add: tee_reader_def NewReader_def scriptReader_def hello_def)
  have b: "br_callbacks ?B =
             [TeeWriter \<lparr>tee_w = errorWriter ?e, tee_errPtr = None\<rparr>, recorder ''extra''] \<and>
           br_err ?B = None \<and> br_trace ?B = [] \<and>
           buf_Read (br_src ?B) 5 (r_state (br_src ?B)) = ((hello, None), [(hi, None)]) \<and>
           Write_m (errorWriter ?e) hello (w_state (errorWriter ?e)) = ((0, Some ?e), []) \<and>
           (errorWriter ?e)\<lparr>w_state := []\<rparr> = ?ok"
    by (simp add: tee_reader_def NewReader_def scriptReader_def errorWriter_def
        scriptWriter_def)
  have ok: "br_trace (snd (Read ?A 5)) = [Ev_buf_Read 5, Ev_OnData 0 hello, Ev_OnData 1 hello]"
    using C4_tee_mirror_first
      [where br = ?A and t = "\<lparr>tee_w = ?ok, tee_errPtr = None\<rparr>" and cbs = "[recorder ''extra'']"
         and chunk = hello and n = 5 and ?e0.0 = None and s = "[(hi, None)]"
         and e = ?e and nw = 0 and sw = "[]" and ?n2.0 = 2
         and r = "scriptReader [(hello, None), (hi, None)]" and w = ?ok]
      a inv
    by (simp add: upt_rec)
  have bad: "fst (Read ?B 5) = (hello, Some ?e) \<and>
             br_callbacks (snd (Read ?B 5)) =
               [TeeWriter \<lparr>tee_w = ?ok, tee_errPtr = Some ?e\<rparr>, recorder ''extra''] \<and>
             Read (snd (Read ?B 5)) 2 = (([], Some ?e), snd (Read ?B 5))"
    using C4_tee_mirror_first
      [where br = ?B and t = "\<lparr>tee_w = errorWriter ?e, tee_errPtr = None\<rparr>"
         and cbs = "[recorder ''extra'']"
         and chunk = hello and n = 5 and ?e0.0 = None and s = "[(hi, None)]"
         and e = ?e and nw = 0 and sw = "[]" and ?n2.0 = 2
         and r = "scriptReader [(hello, None), (hi, None)]" and w = "errorWriter ?e"]
      a b
    by simp
  show ?thesis
    using ok bad by simp
qed

section \<open>Errors of the underlying stream\<close>








end
